theory Spec2Isabelle
  imports Complex_Main
begin

section \<open>Python values used by labelimg\_data\_converter.py\<close>

text \<open>
  File names and file contents are ASCII strings, one \<open>char\<close> per Python character.
  Every exception the program can raise is a value of \<open>error\<close>; a function that can
  raise returns \<open>error + 'a\<close> with \<open>Inl\<close> for the exception.
\<close>

datatype error =
    AssertionError
  | AttributeError
  | TypeError
  | ValueError
  | OverflowError
  | ZeroDivisionError
  | FileNotFoundError
  | IndexError
  | ParseError
  | SystemExit

subsection \<open>Strings\<close>

text \<open>\<open>c.isdigit()\<close> on one ASCII character.\<close>

definition is_digit :: "char \<Rightarrow> bool" where
  "is_digit c = (c \<in> set ''0123456789'')"

text \<open>\<open>s.isdigit()\<close>: at least one character, and all of them digits.\<close>

definition isdigit :: "string \<Rightarrow> bool" where
  "isdigit s = (s \<noteq> [] \<and> list_all is_digit s)"

text \<open>\<open>s.startswith(p)\<close>.\<close>

fun startswith :: "string \<Rightarrow> string \<Rightarrow> bool" where
  "startswith s [] = True"
| "startswith [] (p # ps) = False"
| "startswith (c # cs) (p # ps) = (c = p \<and> startswith cs ps)"

text \<open>
  \<open>s.split(sep)[0]\<close> for a non-empty \<open>sep\<close>: the part of \<open>s\<close> before the first
  occurrence of \<open>sep\<close>, all of \<open>s\<close> when there is none.
\<close>

fun split_head :: "string \<Rightarrow> string \<Rightarrow> string" where
  "split_head sep [] = []"
| "split_head sep (c # cs) =
     (if startswith (c # cs) sep then [] else c # split_head sep cs)"

text \<open>\<open>s[-n:]\<close> for \<open>n > 0\<close>: the last \<open>n\<close> characters, all of \<open>s\<close> when it is shorter.\<close>

definition last_chars :: "nat \<Rightarrow> string \<Rightarrow> string" where
  "last_chars n s = drop (length s - n) s"

text \<open>\<open>s.endswith(p)\<close>.\<close>

definition endswith :: "string \<Rightarrow> string \<Rightarrow> bool" where
  "endswith s p = startswith (rev s) (rev p)"

text \<open>
  \<open>c.isspace()\<close> on one ASCII character, which is also the white space class of the
  regular expressions and what \<open>int()\<close> strips: TAB, LF, VT, FF, CR, the four separators
  0x1C..0x1F and the blank.
\<close>

definition isspace :: "char \<Rightarrow> bool" where
  "isspace c = (of_char c \<in> set [9, 10, 11, 12, 13, 28, 29, 30, 31, 32 :: nat])"

text \<open>\<open>s.strip()\<close>.\<close>

definition strip :: "string \<Rightarrow> string" where
  "strip s = rev (dropWhile isspace (rev (dropWhile isspace s)))"

subsection \<open>Integers and their text\<close>

definition digit_val :: "char \<Rightarrow> nat" where
  "digit_val c = of_char c - 48"

text \<open>
  The digits of a decimal literal after its first digit: digits, with single underscores
  allowed between two digits. \<open>acc\<close> is the value read so far.
\<close>

fun int_digits :: "nat \<Rightarrow> string \<Rightarrow> nat option" where
  "int_digits acc [] = Some acc"
| "int_digits acc [c] = (if is_digit c then Some (10 * acc + digit_val c) else None)"
| "int_digits acc (c # d # cs) =
     (if is_digit c then int_digits (10 * acc + digit_val c) (d # cs)
      else if c = CHR ''_'' \<and> is_digit d then int_digits (10 * acc + digit_val d) cs
      else None)"

text \<open>An unsigned decimal literal: it starts with a digit.\<close>

definition int_literal :: "string \<Rightarrow> nat option" where
  "int_literal s =
     (case s of
        [] \<Rightarrow> None
      | c # cs \<Rightarrow> if is_digit c then int_digits (digit_val c) cs else None)"

text \<open>
  \<open>int(text)\<close> where \<open>text\<close> is the \<open>.text\<close> of an XML element: \<open>None\<close> (an element
  without text) raises TypeError; a string is stripped of surrounding white space, may
  carry one sign, and must then be a decimal literal, otherwise ValueError. Python
  integers are unbounded. (The limit on the number of digits that recent CPython versions
  put on \<open>int(str)\<close> is not part of the model.)
\<close>

definition py_int :: "string option \<Rightarrow> error + int" where
  "py_int text =
     (case text of
        None \<Rightarrow> Inl TypeError
      | Some s \<Rightarrow>
          (case strip s of
             [] \<Rightarrow> Inl ValueError
           | c # cs \<Rightarrow>
               if c = CHR ''-'' then
                 (case int_literal cs of None \<Rightarrow> Inl ValueError | Some n \<Rightarrow> Inr (- int n))
               else if c = CHR ''+'' then
                 (case int_literal cs of None \<Rightarrow> Inl ValueError | Some n \<Rightarrow> Inr (int n))
               else
                 (case int_literal (c # cs) of None \<Rightarrow> Inl ValueError | Some n \<Rightarrow> Inr (int n))))"

text \<open>
  \<open>str(n)\<close> for an integer: the decimal digits of its magnitude (\<open>str_digits\<close>, for
  \<open>n \<ge> 0\<close>), with a leading minus sign when negative.
\<close>

definition digit_char :: "nat \<Rightarrow> char" where
  "digit_char d = ''0123456789'' ! d"

function str_digits :: "int \<Rightarrow> string" where
  "str_digits n =
     (if n < 10 then [digit_char (nat n)]
      else str_digits (n div 10) @ [digit_char (nat (n mod 10))])"
  by pat_completeness auto
termination
  by (relation "measure nat") auto

definition str_int :: "int \<Rightarrow> string" where
  "str_int i = (if i < 0 then CHR ''-'' # str_digits (- i) else str_digits i)"

subsection \<open>Floats\<close>

text \<open>
  A Python \<open>float\<close> is an IEEE 754 binary64 value: a sign (\<open>True\<close> for minus) with a
  magnitude, an infinity, or a NaN. The magnitude of a finite float is the rational number
  it denotes; \<open>Finite True 0\<close> is \<open>-0.0\<close>.
\<close>

datatype pyfloat = Finite bool rat | Infinity bool | NaN

definition pow2 :: "int \<Rightarrow> rat" where
  "pow2 k = (if 0 \<le> k then 2 ^ nat k else 1 / 2 ^ nat (- k))"

definition pow10 :: "int \<Rightarrow> rat" where
  "pow10 k = (if 0 \<le> k then 10 ^ nat k else 1 / 10 ^ nat (- k))"

text \<open>\<open>n.bit_length()\<close> for \<open>n \<ge> 0\<close>: the number of binary digits of \<open>n\<close>.\<close>

function bit_length :: "int \<Rightarrow> nat" where
  "bit_length n = (if n \<le> 0 then 0 else Suc (bit_length (n div 2)))"
  by pat_completeness auto
termination
  by (relation "measure nat") auto

text \<open>
  The binary exponent of a positive rational \<open>m = p / q\<close>: the \<open>k\<close> with
  \<open>2^k \<le> m < 2^(k+1)\<close>. It is the difference of the bit lengths of \<open>p\<close> and \<open>q\<close>, or one
  less.
\<close>

definition floor_log2 :: "rat \<Rightarrow> int" where
  "floor_log2 m =
     (let (p, q) = quotient_of m;
          k = int (bit_length p) - int (bit_length q)
      in if pow2 k \<le> m then k else k - 1)"

text \<open>Rounding to the nearest integer, a tie going to the even one.\<close>

definition round_half_even :: "rat \<Rightarrow> int" where
  "round_half_even x =
     (let f = \<lfloor>x\<rfloor>; r = x - of_int f
      in if r < 1 / 2 then f
         else if 1 / 2 < r then f + 1
         else if even f then f else f + 1)"

text \<open>
  Rounding a magnitude \<open>m \<ge> 0\<close> to binary64, to nearest with ties to even: the result is
  a multiple of \<open>2^e\<close> where \<open>e\<close> leaves 53 significant bits, and is never below the
  exponent \<open>-1074\<close> of the subnormal numbers. \<open>None\<close> is overflow: the rounded magnitude
  would reach \<open>2^1024\<close>.
\<close>

definition round_double :: "rat \<Rightarrow> rat option" where
  "round_double m =
     (if m = 0 then Some 0
      else let e = max (floor_log2 m - 52) (- 1074);
               r = of_int (round_half_even (m / pow2 e)) * pow2 e
           in if pow2 1024 \<le> r then None else Some r)"

text \<open>The float with the given sign nearest to a magnitude; overflow gives an infinity.\<close>

definition make_float :: "bool \<Rightarrow> rat \<Rightarrow> pyfloat" where
  "make_float sg m = (case round_double m of None \<Rightarrow> Infinity sg | Some r \<Rightarrow> Finite sg r)"

text \<open>
  \<open>float(n)\<close> for an integer \<open>n\<close>, also the conversion of an integer operand of a float
  operation: correctly rounded, OverflowError when \<open>n\<close> is too large.
\<close>

definition float_of_int :: "int \<Rightarrow> error + pyfloat" where
  "float_of_int n =
     (case round_double (of_int \<bar>n\<bar>) of
        None \<Rightarrow> Inl OverflowError
      | Some r \<Rightarrow> Inr (Finite (n < 0) r))"

text \<open>\<open>a / b\<close> on floats: ZeroDivisionError for a zero divisor, IEEE 754 division otherwise.\<close>

fun float_truediv :: "pyfloat \<Rightarrow> pyfloat \<Rightarrow> error + pyfloat" where
  "float_truediv NaN (Finite t b) = (if b = 0 then Inl ZeroDivisionError else Inr NaN)"
| "float_truediv NaN _ = Inr NaN"
| "float_truediv _ NaN = Inr NaN"
| "float_truediv (Infinity s) (Infinity t) = Inr NaN"
| "float_truediv (Infinity s) (Finite t b) =
     (if b = 0 then Inl ZeroDivisionError else Inr (Infinity (s \<noteq> t)))"
| "float_truediv (Finite s a) (Infinity t) = Inr (Finite (s \<noteq> t) 0)"
| "float_truediv (Finite s a) (Finite t b) =
     (if b = 0 then Inl ZeroDivisionError else Inr (make_float (s \<noteq> t) (a / b)))"

text \<open>The rational value of a finite float.\<close>

definition signed :: "bool \<Rightarrow> rat \<Rightarrow> rat" where
  "signed sg m = (if sg then - m else m)"

text \<open>
  \<open>a + b\<close> on floats (IEEE 754, round to nearest): an exact sum of zero is \<open>+0.0\<close> unless
  both operands are \<open>-0.0\<close>.
\<close>

fun float_add :: "pyfloat \<Rightarrow> pyfloat \<Rightarrow> pyfloat" where
  "float_add NaN _ = NaN"
| "float_add _ NaN = NaN"
| "float_add (Infinity s) (Infinity t) = (if s = t then Infinity s else NaN)"
| "float_add (Infinity s) (Finite t b) = Infinity s"
| "float_add (Finite s a) (Infinity t) = Infinity t"
| "float_add (Finite s a) (Finite t b) =
     (let v = signed s a + signed t b
      in if v = 0 then Finite (s \<and> t) 0 else make_float (v < 0) \<bar>v\<bar>)"

text \<open>\<open>a < b\<close> and \<open>a <= b\<close> on floats: false when either is a NaN, and \<open>-0.0 == 0.0\<close>.\<close>

fun float_lt :: "pyfloat \<Rightarrow> pyfloat \<Rightarrow> bool" where
  "float_lt NaN _ = False"
| "float_lt _ NaN = False"
| "float_lt (Infinity s) (Infinity t) = (s \<and> \<not> t)"
| "float_lt (Infinity s) (Finite t b) = s"
| "float_lt (Finite s a) (Infinity t) = (\<not> t)"
| "float_lt (Finite s a) (Finite t b) = (signed s a < signed t b)"

fun float_le :: "pyfloat \<Rightarrow> pyfloat \<Rightarrow> bool" where
  "float_le NaN _ = False"
| "float_le _ NaN = False"
| "float_le (Infinity s) (Infinity t) = (s \<or> \<not> t)"
| "float_le (Infinity s) (Finite t b) = s"
| "float_le (Finite s a) (Infinity t) = (\<not> t)"
| "float_le (Finite s a) (Finite t b) = (signed s a \<le> signed t b)"

subsection \<open>The text of a float\<close>

text \<open>
  \<open>str(x)\<close> of a float is \<open>repr(x)\<close>: the shortest decimal digit string that reads back
  as \<open>x\<close> (the nearest to \<open>x\<close> among the shortest, a tie going to the even last digit), in
  positional format when the decimal point falls within the range -4 < decpt <= 16 and
  in exponent format otherwise.
\<close>

function ilog10_up :: "rat \<Rightarrow> nat" where
  "ilog10_up m = (if 10 \<le> m then Suc (ilog10_up (m / 10)) else 0)"
  by pat_completeness auto
termination
proof (relation "measure (\<lambda>m. nat \<lfloor>m\<rfloor>)")
  show "wf (measure (\<lambda>m::rat. nat \<lfloor>m\<rfloor>))" by simp
next
  fix m :: rat
  assume m: "10 \<le> m"
  have "of_int \<lfloor>m / 10\<rfloor> \<le> m / 10" by (rule of_int_floor_le)
  moreover have "m < of_int \<lfloor>m\<rfloor> + 1" using floor_correct [of m] by simp
  ultimately have "(of_int \<lfloor>m / 10\<rfloor> :: rat) < of_int \<lfloor>m\<rfloor>" using m by linarith
  then have lt: "\<lfloor>m / 10\<rfloor> < \<lfloor>m\<rfloor>" by (simp only: of_int_less_iff)
  have "0 < \<lfloor>m\<rfloor>" using m by (simp add: less_floor_iff)
  with lt show "(m / 10, m) \<in> measure (\<lambda>m. nat \<lfloor>m\<rfloor>)" by simp
qed

function ilog10_down :: "rat \<Rightarrow> nat" where
  "ilog10_down m = (if 0 < m \<and> m < 1 then Suc (ilog10_down (m * 10)) else 0)"
  by pat_completeness auto
termination
proof (relation "measure (\<lambda>m. nat \<lfloor>1 / m\<rfloor>)")
  show "wf (measure (\<lambda>m::rat. nat \<lfloor>1 / m\<rfloor>))" by simp
next
  fix m :: rat
  assume m: "0 < m \<and> m < 1"
  define x where "x = 1 / m"
  have x: "1 < x" using m by (simp add: x_def)
  have eq: "1 / (m * 10) = x / 10" by (simp add: x_def)
  have one: "1 \<le> \<lfloor>x\<rfloor>" using x by (simp add: le_floor_iff)
  have lt: "\<lfloor>x / 10\<rfloor> < \<lfloor>x\<rfloor>"
  proof (cases "x < 10")
    case True
    then have "\<lfloor>x / 10\<rfloor> = 0" using x by (simp add: floor_eq_iff)
    with one show ?thesis by simp
  next
    case False
    have "of_int \<lfloor>x / 10\<rfloor> \<le> x / 10" by (rule of_int_floor_le)
    moreover have "x < of_int \<lfloor>x\<rfloor> + 1" using floor_correct [of x] by simp
    ultimately have "(of_int \<lfloor>x / 10\<rfloor> :: rat) < of_int \<lfloor>x\<rfloor>" using False by linarith
    then show ?thesis by (simp only: of_int_less_iff)
  qed
  have "nat \<lfloor>x / 10\<rfloor> < nat \<lfloor>x\<rfloor>" using lt one by linarith
  then have "nat \<lfloor>1 / (m * 10)\<rfloor> < nat \<lfloor>1 / m\<rfloor>" by (simp only: eq) (simp only: x_def)
  then show "(m * 10, m) \<in> measure (\<lambda>m. nat \<lfloor>1 / m\<rfloor>)" by (simp only: in_measure)
qed

text \<open>The decimal exponent of a positive rational: the \<open>k\<close> with \<open>10^k \<le> m < 10^(k+1)\<close>.\<close>

definition floor_log10 :: "rat \<Rightarrow> int" where
  "floor_log10 m = (if 1 \<le> m then int (ilog10_up m) else - int (ilog10_down m))"

text \<open>
  The \<open>n\<close>-digit decimals next to the magnitude \<open>m\<close> of a float are \<open>lo * 10^e\<close> and
  \<open>(lo + 1) * 10^e\<close>. A candidate is good when it reads back as \<open>m\<close>; of two good
  candidates the nearer one is taken, the even one on a tie.
\<close>

definition digits_candidate :: "rat \<Rightarrow> nat \<Rightarrow> (int \<times> int) option" where
  "digits_candidate m n =
     (let e = floor_log10 m - int n + 1;
          f = m / pow10 e;
          lo = \<lfloor>f\<rfloor>;
          hi = lo + 1;
          lo_ok = (round_double (of_int lo * pow10 e) = Some m);
          hi_ok = (round_double (of_int hi * pow10 e) = Some m);
          d = f - of_int lo
      in if lo_ok \<and> hi_ok then
           (if d < 1 / 2 \<or> (d = 1 / 2 \<and> even lo) then Some (lo, e) else Some (hi, e))
         else if lo_ok then Some (lo, e)
         else if hi_ok then Some (hi, e)
         else None)"

fun first_some :: "('a \<Rightarrow> 'b option) \<Rightarrow> 'a list \<Rightarrow> 'b option" where
  "first_some f [] = None"
| "first_some f (x # xs) = (case f x of None \<Rightarrow> first_some f xs | Some y \<Rightarrow> Some y)"

text \<open>Trailing zeros of the digits move into the exponent (a candidate \<open>10 * 10^e\<close> is \<open>1 * 10^(e+1)\<close>).\<close>

function strip_zeros :: "int \<Rightarrow> int \<Rightarrow> int \<times> int" where
  "strip_zeros c e = (if 0 < c \<and> c mod 10 = 0 then strip_zeros (c div 10) (e + 1) else (c, e))"
  by pat_completeness auto
termination
  by (relation "measure (\<lambda>(c, e). nat c)") auto

text \<open>
  The shortest digits of a positive float magnitude, from 1 to 17 digits; 17 digits always
  identify a binary64 value, and the last case only makes the function total.
\<close>

definition shortest_digits :: "rat \<Rightarrow> int \<times> int" where
  "shortest_digits m =
     (case first_some (digits_candidate m) [1 ..< 18] of
        Some (c, e) \<Rightarrow> strip_zeros c e
      | None \<Rightarrow> (round_half_even (m / pow10 (floor_log10 m - 16)), floor_log10 m - 16))"

text \<open>
  The layout of digits \<open>ds\<close> with the decimal point after \<open>decpt\<close> of them: exponent format
  with a sign and at least two exponent digits, or positional format, which always shows
  a fractional part.
\<close>

definition format_repr :: "string \<Rightarrow> int \<Rightarrow> string" where
  "format_repr ds decpt =
     (if decpt \<le> - 4 \<or> 16 < decpt then
        take 1 ds @ (if 1 < length ds then CHR ''.'' # drop 1 ds else [])
        @ ''e'' @ (if decpt - 1 < 0 then ''-'' else ''+'')
        @ (if \<bar>decpt - 1\<bar> < 10 then ''0'' else []) @ str_digits \<bar>decpt - 1\<bar>
      else if decpt \<le> 0 then ''0.'' @ replicate (nat (- decpt)) CHR ''0'' @ ds
      else if int (length ds) \<le> decpt then
        ds @ replicate (nat decpt - length ds) CHR ''0'' @ ''.0''
      else take (nat decpt) ds @ ''.'' @ drop (nat decpt) ds)"

definition float_repr :: "pyfloat \<Rightarrow> string" where
  "float_repr x =
     (case x of
        NaN \<Rightarrow> ''nan''
      | Infinity sg \<Rightarrow> (if sg then ''-inf'' else ''inf'')
      | Finite sg m \<Rightarrow>
          (if sg then ''-'' else [])
          @ (if m = 0 then ''0.0''
             else (case shortest_digits m of
                     (c, e) \<Rightarrow> format_repr (str_digits c) (int (length (str_digits c)) + e))))"

subsection \<open>Paths (posixpath)\<close>

text \<open>\<open>os.path.split(p)[1]\<close>: what follows the last slash.\<close>

definition path_tail :: "string \<Rightarrow> string" where
  "path_tail p = rev (takeWhile (\<lambda>c. c \<noteq> CHR ''/'') (rev p))"

text \<open>\<open>os.path.join(a, b)\<close>.\<close>

definition path_join :: "string \<Rightarrow> string \<Rightarrow> string" where
  "path_join a b =
     (if startswith b ''/'' then b
      else if a = [] \<or> endswith a ''/'' then a @ b
      else a @ ''/'' @ b)"

text \<open>
  \<open>os.path.splitext(p)\<close>: the extension starts at the last dot of the last path
  component, unless only dots precede it there (a leading dot starts no extension).
\<close>

definition splitext :: "string \<Rightarrow> string \<times> string" where
  "splitext p =
     (let name = path_tail p;
          ext = rev (takeWhile (\<lambda>c. c \<noteq> CHR ''.'') (rev name));
          stem = take (length name - length ext - 1) name
      in if CHR ''.'' \<in> set name \<and> \<not> list_all (\<lambda>c. c = CHR ''.'') stem
         then (take (length p - length ext - 1) p, CHR ''.'' # ext)
         else (p, []))"

text \<open>
  \<open>s.split(sep)[1]\<close> for a non-empty \<open>sep\<close>: what lies between the first and the second
  occurrence of \<open>sep\<close>; IndexError when \<open>sep\<close> does not occur.
\<close>

fun after_first :: "string \<Rightarrow> string \<Rightarrow> string option" where
  "after_first sep [] = None"
| "after_first sep (c # cs) =
     (if startswith (c # cs) sep then Some (drop (length sep) (c # cs)) else after_first sep cs)"

definition split_second :: "string \<Rightarrow> string \<Rightarrow> error + string" where
  "split_second sep s =
     (case after_first sep s of None \<Rightarrow> Inl IndexError | Some r \<Rightarrow> Inr (split_head sep r))"

section \<open>The world: files, standard output, globbing and random numbers\<close>

text \<open>
  An XML document is its element tree, as \<open>xml.etree.ElementTree\<close> presents it: every
  element has a tag, a text (\<open>etext\<close>, \<open>None\<close> for an element without text) and children. A file
  holds a document or raw text; a file system maps paths to files.
\<close>

datatype element = Element (tag: string) (etext: "string option") (children: "element list")

datatype content = Document element | Raw string

type_synonym files = "string \<rightharpoonup> content"

text \<open>
  The world the program acts on: the files, the lines printed so far, and the number of
  calls of \<open>random()\<close> made so far. It persists when an exception is raised, so a
  function that acts on the world returns its result, or its exception, with the new
  world.
\<close>

record world =
  files :: files
  printed :: "string list"
  draws :: nat

text \<open>
  What the program cannot compute from the files alone: \<open>glob\<close>, the paths that match a
  pattern in a file system, in the order of the directory listing, and \<open>random\<close>, the
  stream of values that successive calls of \<open>random()\<close> return.
\<close>

record env =
  glob :: "files \<Rightarrow> string \<Rightarrow> string list"
  random :: "nat \<Rightarrow> pyfloat"

definition print :: "string \<Rightarrow> world \<Rightarrow> world" where
  "print line w = w\<lparr>printed := printed w @ [line]\<rparr>"

text \<open>\<open>os.path.exists(p)\<close>.\<close>

definition path_exists :: "world \<Rightarrow> string \<Rightarrow> bool" where
  "path_exists w p = (files w p \<noteq> None)"

text \<open>\<open>shutil.copyfile(src, dst)\<close>: the content is copied as it is.\<close>

definition copyfile :: "string \<Rightarrow> string \<Rightarrow> world \<Rightarrow> (error + unit) \<times> world" where
  "copyfile src dst w =
     (case files w src of
        None \<Rightarrow> (Inl FileNotFoundError, w)
      | Some c \<Rightarrow> (Inr (), w\<lparr>files := (files w)(dst \<mapsto> c)\<rparr>))"

text \<open>\<open>ET.parse(xml).getroot()\<close>.\<close>

definition parse :: "world \<Rightarrow> string \<Rightarrow> error + element" where
  "parse w xml =
     (case files w xml of
        None \<Rightarrow> Inl FileNotFoundError
      | Some (Raw s) \<Rightarrow> Inl ParseError
      | Some (Document doc) \<Rightarrow> Inr doc)"

text \<open>\<open>e.iter(t)\<close>: \<open>e\<close> and its descendants with tag \<open>t\<close>, in document order.\<close>

fun iter :: "string \<Rightarrow> element \<Rightarrow> element list" where
  "iter t (Element g x cs) =
     (if g = t then [Element g x cs] else []) @ concat (map (iter t) cs)"

text \<open>\<open>e.find(t)\<close>: the first child of \<open>e\<close> with tag \<open>t\<close>.\<close>

definition find_child :: "string \<Rightarrow> element \<Rightarrow> element option" where
  "find_child t e = List.find (\<lambda>c. tag c = t) (children e)"

text \<open>\<open>e.find(t).text\<close>: AttributeError when there is no such child.\<close>

definition find_text :: "string \<Rightarrow> element \<Rightarrow> error + string option" where
  "find_text t e = (case find_child t e of None \<Rightarrow> Inl AttributeError | Some c \<Rightarrow> Inr (etext c))"

text \<open>Sequencing of two steps that can raise.\<close>

definition bind :: "error + 'a \<Rightarrow> ('a \<Rightarrow> error + 'b) \<Rightarrow> error + 'b" where
  "bind m f = (case m of Inl e \<Rightarrow> Inl e | Inr x \<Rightarrow> f x)"

text \<open>\<open>int(e.find(t).text)\<close>.\<close>

definition find_int :: "string \<Rightarrow> element \<Rightarrow> error + int" where
  "find_int t e = bind (find_text t e) py_int"

section \<open>ImageData: the flattener\<close>

text \<open>
  \<open>ImageData.sanitize_id\<close> (lines 75--86). The two \<open>assert\<close>s are the two
  \<open>AssertionError\<close> branches.
\<close>

definition sanitize_id :: "string \<Rightarrow> error + string" where
  "sanitize_id xml =
     (let xml_id = split_head ''.xml'' (last_chars 8 xml);
          xml_id = (if \<not> isdigit xml_id then CHR ''0'' # drop 1 xml_id else xml_id)
      in if \<not> isdigit xml_id then Inl AssertionError
         else if length xml_id \<noteq> 4 then Inl AssertionError
         else Inr xml_id)"

text \<open>The attributes of an \<open>ImageData\<close> object.\<close>

record image_data =
  im_input_dir :: string
  im_output_dir :: string
  im_file_header :: string
  copied_pairs_count :: int
  existence_check_when_copying :: bool

text \<open>\<open>ImageData.__init__\<close> (lines 67--73).\<close>

definition new_image_data :: "string \<Rightarrow> string \<Rightarrow> string \<Rightarrow> image_data" where
  "new_image_data input_dir output_dir file_header =
     \<lparr>im_input_dir = input_dir, im_output_dir = output_dir, im_file_header = file_header,
      copied_pairs_count = 0, existence_check_when_copying = False\<rparr>"

text \<open>
  The body of the inner loop of \<open>ImageData.sanitize\<close> (lines 102--120), for one XML path:
  \<open>None\<close> is the \<open>continue\<close> of a missing image, an exception leaves the loop.
\<close>

definition sanitize_pair ::
  "string \<Rightarrow> string \<Rightarrow> image_data \<times> world \<Rightarrow> (error + unit) \<times> image_data \<times> world" where
  "sanitize_pair proper_file_name_head xml st =
     (let (im, w) = st;
          jpg_path = split_head ''.xml'' xml @ ''.jpg''
      in if \<not> path_exists w jpg_path
         then (Inr (), im, print (''***** JPG is missing: '' @ jpg_path) w)
         else
           let xml_name = path_tail xml
           in case sanitize_id xml_name of
                Inl e \<Rightarrow> (Inl e, im, w)
              | Inr xml_id \<Rightarrow>
                  let proper_xml_name = proper_file_name_head @ xml_id @ ''.xml'';
                      w = (if existence_check_when_copying im
                              \<and> path_exists w (path_join (im_output_dir im) proper_xml_name)
                           then print (''***** already exists: '' @ proper_xml_name
                                       @ '' where src: '' @ xml) w
                           else w);
                      proper_jpg_name = proper_file_name_head @ xml_id @ ''.jpg'';
                      w = (if existence_check_when_copying im
                              \<and> path_exists w (path_join (im_output_dir im) proper_jpg_name)
                           then print (''***** already exists: '' @ proper_jpg_name
                                       @ '' where src: '' @ jpg_path) w
                           else w);
                      dst_html = path_join (im_output_dir im) proper_xml_name
                  in case copyfile xml dst_html w of
                       (Inl e, w) \<Rightarrow> (Inl e, im, w)
                     | (Inr u, w) \<Rightarrow>
                         let dst_jpg = path_join (im_output_dir im) proper_jpg_name
                         in case copyfile jpg_path dst_jpg w of
                              (Inl e, w) \<Rightarrow> (Inl e, im, w)
                            | (Inr u, w) \<Rightarrow>
                                (Inr (),
                                 im\<lparr>copied_pairs_count := copied_pairs_count im + 1\<rparr>, w))"

text \<open>The inner loop, over the XML paths of one \<open>movie\<close> directory.\<close>

fun sanitize_xmls ::
  "string \<Rightarrow> string list \<Rightarrow> image_data \<times> world \<Rightarrow> (error + unit) \<times> image_data \<times> world" where
  "sanitize_xmls head [] st = (Inr (), st)"
| "sanitize_xmls head (xml # xmls) st =
     (case sanitize_pair head xml st of
        (Inl e, st') \<Rightarrow> (Inl e, st')
      | (Inr u, st') \<Rightarrow> sanitize_xmls head xmls st')"

text \<open>
  The outer loop (lines 96--101), over the \<open>movie\<close> directories. The second glob is made
  when the loop reaches the directory, on the files as they are then.
\<close>

fun sanitize_movies ::
  "env \<Rightarrow> string list \<Rightarrow> image_data \<times> world \<Rightarrow> (error + unit) \<times> image_data \<times> world" where
  "sanitize_movies ev [] st = (Inr (), st)"
| "sanitize_movies ev (movie_dir # movie_dirs) st =
     (let movie_dir_name = path_tail movie_dir
      in case split_second ''movie'' movie_dir_name of
           Inl e \<Rightarrow> (Inl e, st)
         | Inr movie_dir_id \<Rightarrow>
             let proper_file_name_head =
                   im_file_header (fst st) @ movie_dir_id @ ''_'' @ ''frame''
             in case sanitize_xmls proper_file_name_head
                       (glob ev (files (snd st)) (path_join movie_dir ''*.xml'')) st of
                  (Inl e, st') \<Rightarrow> (Inl e, st')
                | (Inr u, st') \<Rightarrow> sanitize_movies ev movie_dirs st')"

text \<open>\<open>ImageData.sanitize\<close> (lines 88--120).\<close>

definition sanitize :: "env \<Rightarrow> image_data \<Rightarrow> world \<Rightarrow> (error + unit) \<times> image_data \<times> world" where
  "sanitize ev im w =
     sanitize_movies ev (glob ev (files w) (path_join (im_input_dir im) ''movie*''))
       (im\<lparr>copied_pairs_count := 0\<rparr>, w)"

section \<open>MetaData: the converter\<close>

text \<open>
  The loop over the \<open>size\<close> nodes (lines 164--169). The state is \<open>img_width\<close> and
  \<open>img_height\<close>, \<open>None\<close> until a node has set them.
\<close>

fun size_loop :: "element list \<Rightarrow> int option \<times> int option \<Rightarrow> error + int option \<times> int option" where
  "size_loop [] st = Inr st"
| "size_loop (sz # sizes) (img_width, img_height) =
     bind (find_int ''depth'' sz) (\<lambda>depth.
       if depth \<noteq> 3 then Inl AssertionError
       else if img_width \<noteq> None then Inl AssertionError
       else bind (find_int ''width'' sz) (\<lambda>width.
         if img_height \<noteq> None then Inl AssertionError
         else bind (find_int ''height'' sz) (\<lambda>height.
           size_loop sizes (Some width, Some height))))"

text \<open>
  \<open>assert(img_width > 0)\<close> (lines 170--171): comparing \<open>None\<close> with an integer raises
  TypeError (Python 3).
\<close>

definition assert_positive :: "int option \<Rightarrow> error + int" where
  "assert_positive v =
     (case v of
        None \<Rightarrow> Inl TypeError
      | Some n \<Rightarrow> if 0 < n then Inr n else Inl AssertionError)"

text \<open>\<open>(a / 2 + lo) / extent\<close> on a float \<open>a\<close> and integers \<open>lo\<close> and \<open>extent\<close> (lines 193 and 195).\<close>

definition center :: "pyfloat \<Rightarrow> int \<Rightarrow> int \<Rightarrow> error + pyfloat" where
  "center a lo extent =
     bind (float_of_int 2) (\<lambda>two.
     bind (float_truediv a two) (\<lambda>half.
     bind (float_of_int lo) (\<lambda>lo_f.
     bind (float_of_int extent) (\<lambda>extent_f.
       float_truediv (float_add half lo_f) extent_f))))"

text \<open>\<open>a / extent\<close> on a float \<open>a\<close> and an integer \<open>extent\<close> (lines 197 and 198).\<close>

definition relative :: "pyfloat \<Rightarrow> int \<Rightarrow> error + pyfloat" where
  "relative a extent = bind (float_of_int extent) (\<lambda>extent_f. float_truediv a extent_f)"

text \<open>A coordinate of a box: \<open>int(bndbox.find(t).text)\<close> with its \<open>assert\<close>.\<close>

definition coordinate :: "string \<Rightarrow> element \<Rightarrow> error + int" where
  "coordinate t bndbox =
     bind (find_int t bndbox) (\<lambda>v. if 0 < v then Inr v else Inl AssertionError)"

text \<open>The line of one \<open>bndbox\<close> node (lines 183--202), with its newline.\<close>

definition bndbox_line :: "int \<Rightarrow> int \<Rightarrow> int \<Rightarrow> element \<Rightarrow> error + string" where
  "bndbox_line class_id img_width img_height bndbox =
     bind (coordinate ''xmin'' bndbox) (\<lambda>xmin.
     bind (coordinate ''xmax'' bndbox) (\<lambda>xmax.
     bind (coordinate ''ymin'' bndbox) (\<lambda>ymin.
     bind (coordinate ''ymax'' bndbox) (\<lambda>ymax.
     bind (float_of_int (xmax - xmin)) (\<lambda>abs_width.
     bind (float_of_int (ymax - ymin)) (\<lambda>abs_height.
     bind (center abs_width xmin img_width) (\<lambda>xcenter.
     bind (center abs_height ymin img_height) (\<lambda>ycenter.
     bind (relative abs_width img_width) (\<lambda>rel_width.
     bind (relative abs_height img_height) (\<lambda>rel_height.
       Inr (str_int class_id @ '' '' @ float_repr xcenter @ '' '' @ float_repr ycenter
            @ '' '' @ float_repr rel_width @ '' '' @ float_repr rel_height
            @ [CHR 0x0A])))))))))))"

text \<open>The loop over the \<open>bndbox\<close> nodes of one object (line 181), appending to \<open>obj_data\<close>.\<close>

fun bndbox_loop :: "int \<Rightarrow> int \<Rightarrow> int \<Rightarrow> element list \<Rightarrow> string \<Rightarrow> error + string" where
  "bndbox_loop class_id img_width img_height [] obj_data = Inr obj_data"
| "bndbox_loop class_id img_width img_height (bndbox # bndboxes) obj_data =
     bind (bndbox_line class_id img_width img_height bndbox) (\<lambda>line.
       bndbox_loop class_id img_width img_height bndboxes (obj_data @ line))"

text \<open>\<open>name in self.classes\<close>, for the text of a \<open>name\<close> node: \<open>None\<close> is no key.\<close>

definition in_classes :: "(string \<rightharpoonup> int) \<Rightarrow> string option \<Rightarrow> bool" where
  "in_classes classes name = (case name of None \<Rightarrow> False | Some n \<Rightarrow> classes n \<noteq> None)"

text \<open>\<open>'{}'.format(name)\<close> for the text of a node.\<close>

definition format_text :: "string option \<Rightarrow> string" where
  "format_text name = (case name of None \<Rightarrow> ''None'' | Some n \<Rightarrow> n)"

text \<open>The message printed for an object of an unknown class (line 178).\<close>

definition wrong_class_message :: "string option \<Rightarrow> string \<Rightarrow> string" where
  "wrong_class_message name xml =
     ''***** '' @ [CHR 0x22] @ format_text name @ [CHR 0x22, CHR 0x22]
     @ '' is wrong class in '' @ xml"

text \<open>
  The loop over the \<open>object\<close> nodes (lines 173--203). The state is \<open>obj_data\<close> and the
  lines printed; what was printed stays printed when a later object raises.
\<close>

fun object_loop ::
  "(string \<rightharpoonup> int) \<Rightarrow> string \<Rightarrow> int \<Rightarrow> int \<Rightarrow> element list \<Rightarrow> string \<times> string list
     \<Rightarrow> (error + string) \<times> string list" where
  "object_loop classes xml img_width img_height [] (obj_data, out) = (Inr obj_data, out)"
| "object_loop classes xml img_width img_height (obj # objs) (obj_data, out) =
     (case find_text ''name'' obj of
        Inl e \<Rightarrow> (Inl e, out)
      | Inr name \<Rightarrow>
          if \<not> in_classes classes name
          then object_loop classes xml img_width img_height objs
                 (obj_data, out @ [wrong_class_message name xml])
          else
            let class_id = the (classes (the name))
            in case bndbox_loop class_id img_width img_height (iter ''bndbox'' obj) obj_data of
                 Inl e \<Rightarrow> (Inl e, out)
               | Inr obj_data \<Rightarrow>
                   object_loop classes xml img_width img_height objs (obj_data, out))"

text \<open>
  The test of line 175 on an object node: its \<open>name\<close> node is there and its text is no
  key of the class map. \<open>class_of\<close> is the class id of an object that passes the test.
\<close>

definition unrecognized :: "(string \<rightharpoonup> int) \<Rightarrow> element \<Rightarrow> bool" where
  "unrecognized classes obj =
     (case find_text ''name'' obj of Inl e \<Rightarrow> False | Inr name \<Rightarrow> \<not> in_classes classes name)"

definition class_of :: "(string \<rightharpoonup> int) \<Rightarrow> element \<Rightarrow> int option" where
  "class_of classes obj =
     (case find_text ''name'' obj of
        Inl e \<Rightarrow> None
      | Inr name \<Rightarrow> if in_classes classes name then classes (the name) else None)"

text \<open>The messages of line 178 for the objects of unknown class, in document order.\<close>

definition skipped_messages :: "(string \<rightharpoonup> int) \<Rightarrow> string \<Rightarrow> element list \<Rightarrow> string list" where
  "skipped_messages classes xml objs =
     map (\<lambda>obj. case find_text ''name'' obj of
                  Inl e \<Rightarrow> []
                | Inr name \<Rightarrow> wrong_class_message name xml)
       (filter (unrecognized classes) objs)"

text \<open>
  The boxes that the two nested loops visit, each with the class id of its object: the
  \<open>bndbox\<close> nodes of every object of a known class, in document order.
\<close>

definition class_boxes :: "(string \<rightharpoonup> int) \<Rightarrow> element list \<Rightarrow> (int \<times> element) list" where
  "class_boxes classes objs =
     concat (map (\<lambda>obj. case class_of classes obj of
                           None \<Rightarrow> []
                         | Some class_id \<Rightarrow> map (Pair class_id) (iter ''bndbox'' obj)) objs)"

text \<open>
  The part of \<open>convert\<close> that reads the tree (lines 161--203): the text for the output
  file, or the exception, with the lines printed.
\<close>

definition convert_tree ::
  "(string \<rightharpoonup> int) \<Rightarrow> string \<Rightarrow> element \<Rightarrow> (error + string) \<times> string list" where
  "convert_tree classes xml doc =
     (if tag doc \<noteq> ''annotation'' then (Inl AssertionError, [])
      else case size_loop (iter ''size'' doc) (None, None) of
             Inl e \<Rightarrow> (Inl e, [])
           | Inr (img_width, img_height) \<Rightarrow>
               (case assert_positive img_width of
                  Inl e \<Rightarrow> (Inl e, [])
                | Inr width \<Rightarrow>
                    (case assert_positive img_height of
                       Inl e \<Rightarrow> (Inl e, [])
                     | Inr height \<Rightarrow>
                         object_loop classes xml width height (iter ''object'' doc) ([], []))))"

text \<open>\<open>MetaData.convert\<close> (lines 147--212).\<close>

definition convert :: "(string \<rightharpoonup> int) \<Rightarrow> string \<Rightarrow> world \<Rightarrow> (error + bool) \<times> world" where
  "convert classes xml w =
     (let (txt_path, ext) = splitext xml
      in if ext \<noteq> ''.xml'' then (Inl AssertionError, w)
         else if txt_path = [] then (Inl AssertionError, w)
         else
           let txt_path = txt_path @ ''.txt''
           in case parse w xml of
                Inl e \<Rightarrow> (Inl e, w)
              | Inr doc \<Rightarrow>
                  (case convert_tree classes xml doc of
                     (Inl e, out) \<Rightarrow> (Inl e, w\<lparr>printed := printed w @ out\<rparr>)
                   | (Inr obj_data, out) \<Rightarrow>
                       if obj_data = []
                       then (Inr False,
                             print (''----- object is empty: '' @ xml)
                               (w\<lparr>printed := printed w @ out\<rparr>))
                       else (Inr True,
                             w\<lparr>printed := printed w @ out,
                               files := (files w)(txt_path \<mapsto> Raw obj_data)\<rparr>)))"

section \<open>TrainingData: the splitter\<close>

text \<open>The attributes of a \<open>TrainingData\<close> object.\<close>

record training_data =
  td_input_dir :: string
  td_output_dir :: string
  td_file_header :: string
  td_percentage_test :: pyfloat
  td_classes :: "string \<rightharpoonup> int"
  detected_pairs_count :: int
  processed_count :: int

text \<open>The floats \<open>0.0\<close> and \<open>1.0\<close>.\<close>

definition float_0 :: pyfloat where
  "float_0 = Finite False 0"

definition float_1 :: pyfloat where
  "float_1 = Finite False 1"

text \<open>\<open>TrainingData.__init__\<close> (lines 231--240), with its \<open>assert\<close> on the test fraction.\<close>

definition new_training_data ::
  "string \<Rightarrow> string \<Rightarrow> string \<Rightarrow> (string \<rightharpoonup> int) \<Rightarrow> pyfloat \<Rightarrow> error + training_data" where
  "new_training_data input_dir output_dir file_header classes percentage_test =
     (if \<not> (float_lt float_0 percentage_test \<and> float_lt percentage_test float_1)
      then Inl AssertionError
      else Inr \<lparr>td_input_dir = input_dir, td_output_dir = output_dir,
                td_file_header = file_header, td_percentage_test = percentage_test,
                td_classes = classes, detected_pairs_count = 0, processed_count = 0\<rparr>)"

text \<open>
  The state of the loop of \<open>split\<close>: the object, the strings written so far to the two
  manifest files, each by one call of \<open>write\<close>, and the world.
\<close>

record split_state =
  td :: training_data
  file_train :: "string list"
  file_test :: "string list"
  wld :: world

text \<open>The line written for an XML path (line 252).\<close>

definition jpg_file_name :: "string \<Rightarrow> string \<Rightarrow> string" where
  "jpg_file_name input_dir xml =
     path_join input_dir (split_head ''.xml'' (path_tail xml) @ ''.jpg'') @ [CHR 0x0A]"

text \<open>The body of the loop of \<open>split\<close> (lines 250--264), for one XML path.\<close>

definition split_pair :: "env \<Rightarrow> string \<Rightarrow> split_state \<Rightarrow> (error + unit) \<times> split_state" where
  "split_pair ev xml st =
     (let jpg_path = split_head ''.xml'' xml @ ''.jpg'';
          name = jpg_file_name (td_input_dir (td st)) xml
      in if path_exists (wld st) jpg_path then
           let st = st\<lparr>td := (td st)\<lparr>detected_pairs_count := detected_pairs_count (td st) + 1\<rparr>\<rparr>
           in case convert (td_classes (td st)) xml (wld st) of
                (Inl e, w) \<Rightarrow> (Inl e, st\<lparr>wld := w\<rparr>)
              | (Inr processed, w) \<Rightarrow>
                  if processed then
                    let r = random ev (draws w);
                        w = w\<lparr>draws := draws w + 1\<rparr>;
                        st = (if float_lt r (td_percentage_test (td st))
                              then st\<lparr>file_test := file_test st @ [name]\<rparr>
                              else st\<lparr>file_train := file_train st @ [name]\<rparr>)
                    in (Inr (),
                        st\<lparr>td := (td st)\<lparr>processed_count := processed_count (td st) + 1\<rparr>,
                           wld := w\<rparr>)
                  else (Inr (), st\<lparr>wld := w\<rparr>)
         else (Inr (), st\<lparr>wld := print (''***** JPG is missing: '' @ jpg_path) (wld st)\<rparr>))"

fun split_xmls :: "env \<Rightarrow> string list \<Rightarrow> split_state \<Rightarrow> (error + unit) \<times> split_state" where
  "split_xmls ev [] st = (Inr (), st)"
| "split_xmls ev (xml # xmls) st =
     (case split_pair ev xml st of
        (Inl e, st') \<Rightarrow> (Inl e, st')
      | (Inr u, st') \<Rightarrow> split_xmls ev xmls st')"

text \<open>The paths of the two manifest files (lines 247--248).\<close>

definition train_path :: "training_data \<Rightarrow> string" where
  "train_path t = path_join (td_output_dir t) (td_file_header t @ ''-train.txt'')"

definition test_path :: "training_data \<Rightarrow> string" where
  "test_path t = path_join (td_output_dir t) (td_file_header t @ ''-test.txt'')"

text \<open>
  \<open>TrainingData.split\<close> (lines 242--266). Opening a manifest file creates it empty; what
  was written reaches the file when it is closed, at the end of a run that raised nothing.
\<close>

definition split :: "env \<Rightarrow> training_data \<Rightarrow> world \<Rightarrow> (error + unit) \<times> split_state" where
  "split ev t w =
     (let t = t\<lparr>detected_pairs_count := 0, processed_count := 0\<rparr>;
          w = w\<lparr>files := (files w)(train_path t \<mapsto> Raw [])\<rparr>;
          w = w\<lparr>files := (files w)(test_path t \<mapsto> Raw [])\<rparr>
      in case split_xmls ev (glob ev (files w) (path_join (td_input_dir t) ''*.xml''))
                \<lparr>td = t, file_train = [], file_test = [], wld = w\<rparr> of
           (Inl e, st) \<Rightarrow> (Inl e, st)
         | (Inr u, st) \<Rightarrow>
             let w = wld st;
                 w = w\<lparr>files := (files w)(train_path t \<mapsto> Raw (concat (file_train st)))\<rparr>;
                 w = w\<lparr>files := (files w)(test_path t \<mapsto> Raw (concat (file_test st)))\<rparr>
             in (Inr (), st\<lparr>wld := w\<rparr>))"

section \<open>The command line and the main program\<close>

text \<open>
  The module-level configuration that \<open>parse_args\<close> sets and \<open>main\<close> reads: the
  globals \<open>classes\<close>, \<open>source_dir\<close>, \<open>destination_dir\<close>, \<open>dest_subdir\<close>,
  \<open>dest_file_name_header\<close> and \<open>percentage_test\<close>.
\<close>

record config =
  cfg_classes :: "string \<rightharpoonup> int"
  cfg_source_dir :: string
  cfg_destination_dir :: string
  cfg_dest_subdir :: string
  cfg_dest_file_name_header :: string
  cfg_percentage_test :: pyfloat

text \<open>
  The arguments as \<open>argparse\<close> sees them after the conversion to their types: the
  positional class list, and the options, each \<open>None\<close> when it is not given.
\<close>

record args =
  arg_classes :: "string option"
  arg_src :: "string option"
  arg_dest :: "string option"
  arg_subdir :: "string option"
  arg_header :: "string option"
  arg_percent :: "pyfloat option"

text \<open>\<open>Range.__eq__\<close> (lines 292--293): \<open>self.start <= other <= self.end\<close>.\<close>

definition range_eq :: "pyfloat \<Rightarrow> pyfloat \<Rightarrow> pyfloat \<Rightarrow> bool" where
  "range_eq start end other = (float_le start other \<and> float_le other end)"

text \<open>The float \<open>0.1\<close>, the default of \<open>--percentage_test\<close>.\<close>

definition float_0_1 :: pyfloat where
  "float_0_1 = Finite False (3602879701896397 / 36028797018963968)"

text \<open>\<open>s.split(',')\<close>.\<close>

fun split_comma :: "string \<Rightarrow> string list" where
  "split_comma [] = [[]]"
| "split_comma (c # cs) =
     (if c = CHR '','' then [] # split_comma cs
      else (case split_comma cs of [] \<Rightarrow> [[c]] | p # ps \<Rightarrow> (c # p) # ps))"

text \<open>The class map (lines 350--353): white space and plus signs are removed first.\<close>

definition class_map :: "string \<Rightarrow> (string \<rightharpoonup> int)" where
  "class_map s =
     (let names = split_comma (filter (\<lambda>c. \<not> (isspace c \<or> c = CHR ''+'')) s)
      in fold (\<lambda>(i, v) m. m(v \<mapsto> int i)) (zip [0 ..< length names] names) Map.empty)"

text \<open>
  \<open>parse_args\<close> (lines 297--353). \<open>argparse\<close> exits when the positional argument is
  missing and when a given test fraction is not among the \<open>choices\<close>, which holds the one
  \<open>Range(0.0, 1.0)\<close>; the default is not checked.
\<close>

definition parse_args :: "args \<Rightarrow> error + config" where
  "parse_args a =
     (case arg_percent a of
        Some v \<Rightarrow> if \<not> range_eq float_0 float_1 v then Inl SystemExit
                  else (case arg_classes a of
                          None \<Rightarrow> Inl SystemExit
                        | Some cs \<Rightarrow>
                            Inr \<lparr>cfg_classes = class_map cs,
                                 cfg_source_dir = (case arg_src a of None \<Rightarrow> ''source'' | Some x \<Rightarrow> x),
                                 cfg_destination_dir =
                                   (case arg_dest a of None \<Rightarrow> ''destination'' | Some x \<Rightarrow> x),
                                 cfg_dest_subdir = (case arg_subdir a of None \<Rightarrow> ''data'' | Some x \<Rightarrow> x),
                                 cfg_dest_file_name_header =
                                   (case arg_header a of None \<Rightarrow> ''sample'' | Some x \<Rightarrow> x),
                                 cfg_percentage_test = v\<rparr>)
      | None \<Rightarrow>
          (case arg_classes a of
             None \<Rightarrow> Inl SystemExit
           | Some cs \<Rightarrow>
               Inr \<lparr>cfg_classes = class_map cs,
                    cfg_source_dir = (case arg_src a of None \<Rightarrow> ''source'' | Some x \<Rightarrow> x),
                    cfg_destination_dir =
                      (case arg_dest a of None \<Rightarrow> ''destination'' | Some x \<Rightarrow> x),
                    cfg_dest_subdir = (case arg_subdir a of None \<Rightarrow> ''data'' | Some x \<Rightarrow> x),
                    cfg_dest_file_name_header =
                      (case arg_header a of None \<Rightarrow> ''sample'' | Some x \<Rightarrow> x),
                    cfg_percentage_test = float_0_1\<rparr>))"

text \<open>
  \<open>main\<close> (lines 268--286), in the directory \<open>current_dir\<close>: the flattener runs first, then
  the \<open>TrainingData\<close> object is made, then the splitter runs.
\<close>

definition main :: "env \<Rightarrow> string \<Rightarrow> config \<Rightarrow> world \<Rightarrow> (error + unit) \<times> world" where
  "main ev current_dir cfg w =
     (let input_dir = path_join current_dir (cfg_source_dir cfg);
          output_dir = path_join current_dir (path_join (cfg_destination_dir cfg) (cfg_dest_subdir cfg));
          imageData = new_image_data input_dir output_dir (cfg_dest_file_name_header cfg)
      in case sanitize ev imageData w of
           (Inl e, imageData, w) \<Rightarrow> (Inl e, w)
         | (Inr u, imageData, w) \<Rightarrow>
             let w = print (''_____ '' @ str_int (copied_pairs_count imageData)
                            @ '' xml/jpg pairs have been copied.'') w;
                 input_dir = output_dir;
                 output_dir = path_join current_dir (cfg_destination_dir cfg)
             in case new_training_data input_dir output_dir (cfg_dest_subdir cfg) (cfg_classes cfg)
                       (cfg_percentage_test cfg) of
                  Inl e \<Rightarrow> (Inl e, w)
                | Inr trainData \<Rightarrow>
                    (case split ev trainData w of
                       (Inl e, st) \<Rightarrow> (Inl e, wld st)
                     | (Inr u, st) \<Rightarrow>
                         let trainData = td st;
                             w = print (''_____ '' @ str_int (detected_pairs_count trainData)
                                        @ '' JPG/XML pairs were detected in '' @ [CHR 0x22]
                                        @ cfg_source_dir cfg @ [CHR 0x22] @ ''.'') (wld st);
                             w = (if copied_pairs_count imageData = detected_pairs_count trainData
                                  then print ''_____ All the JPG/XML pairs were examined.'' w
                                  else print ''***** Some JPG/XML pairs were missing.'' w);
                             w = print (''_____ '' @ str_int (processed_count trainData)
                                        @ '' valid JPG/XML/TXT trios were generated in ''
                                        @ [CHR 0x22] @ cfg_destination_dir cfg @ ''/''
                                        @ cfg_dest_subdir cfg @ [CHR 0x22] @ ''.'') w
                         in (Inr (), w)))"

text \<open>The program: \<open>parse_args()\<close>, then \<open>main()\<close>.\<close>

definition program :: "env \<Rightarrow> string \<Rightarrow> args \<Rightarrow> world \<Rightarrow> (error + unit) \<times> world" where
  "program ev current_dir a w =
     (case parse_args a of Inl e \<Rightarrow> (Inl e, w) | Inr cfg \<Rightarrow> main ev current_dir cfg w)"

section \<open>Annotation files as LabelImg writes them\<close>

text \<open>
  The nodes of an annotation file, for concrete documents: a node with text only, the
  \<open>size\<close> node, a \<open>bndbox\<close> node, an \<open>object\<close> node with its name and boxes, and the
  \<open>annotation\<close> root.
\<close>

definition leaf :: "string \<Rightarrow> string \<Rightarrow> element" where
  "leaf t s = Element t (Some s) []"

definition size_node :: "string \<Rightarrow> string \<Rightarrow> string \<Rightarrow> element" where
  "size_node width height depth =
     Element ''size'' None [leaf ''width'' width, leaf ''height'' height, leaf ''depth'' depth]"

definition bndbox_node :: "string \<Rightarrow> string \<Rightarrow> string \<Rightarrow> string \<Rightarrow> element" where
  "bndbox_node xmin ymin xmax ymax =
     Element ''bndbox'' None
       [leaf ''xmin'' xmin, leaf ''ymin'' ymin, leaf ''xmax'' xmax, leaf ''ymax'' ymax]"

definition object_node :: "string \<Rightarrow> element list \<Rightarrow> element" where
  "object_node name boxes = Element ''object'' None (leaf ''name'' name # boxes)"

definition annotation :: "element list \<Rightarrow> element" where
  "annotation nodes = Element ''annotation'' None nodes"

text \<open>A world with one annotation file and its image, nothing printed, no random number drawn.\<close>

definition one_file_world :: "string \<Rightarrow> string \<Rightarrow> element \<Rightarrow> world" where
  "one_file_world xml jpg doc =
     \<lparr>files = [xml \<mapsto> Document doc, jpg \<mapsto> Raw ''JFIF''], printed = [], draws = 0\<rparr>"

text \<open>The class map of the class list \<open>cat,dog\<close>.\<close>

definition cat_dog :: "string \<rightharpoonup> int" where
  "cat_dog = [''cat'' \<mapsto> 0, ''dog'' \<mapsto> 1]"

text \<open>
  The documents of the scenarios, for an image of 100 by 100 pixels with three channels:
  the box of the class \<open>cat\<close>, and files with an object \<open>bird\<close>, which is no class of
  the map, with a \<open>cat\<close>, with both, with a \<open>cat\<close> that has two boxes or none, and
  a \<open>bird\<close> and a \<open>cat\<close> whose box starts at 0.
\<close>

definition scenario_box :: element where
  "scenario_box = bndbox_node ''10'' ''20'' ''50'' ''60''"

definition bird_doc :: element where
  "bird_doc = annotation [size_node ''100'' ''100'' ''3'',
                          object_node ''bird'' [bndbox_node ''1'' ''2'' ''3'' ''4'']]"

definition cat_doc :: element where
  "cat_doc = annotation [size_node ''100'' ''100'' ''3'', object_node ''cat'' [scenario_box]]"

definition bird_cat_doc :: element where
  "bird_cat_doc = annotation [size_node ''100'' ''100'' ''3'',
                              object_node ''bird'' [bndbox_node ''1'' ''2'' ''3'' ''4''],
                              object_node ''cat'' [scenario_box]]"

definition two_boxes_doc :: element where
  "two_boxes_doc = annotation [size_node ''100'' ''100'' ''3'',
                               object_node ''cat'' [scenario_box, scenario_box]]"

definition no_box_doc :: element where
  "no_box_doc = annotation [size_node ''100'' ''100'' ''3'', object_node ''cat'' []]"



text \<open>The text of the line of the scenario, and the message for the \<open>bird\<close>.\<close>

definition scenario_text :: string where
  "scenario_text = ''0 0.3 0.4 0.4 0.4'' @ [CHR 0x0A]"

definition bird_message :: string where
  "bird_message = ''***** '' @ [CHR 0x22] @ ''bird'' @ [CHR 0x22, CHR 0x22]
                  @ '' is wrong class in /d/a.xml''"



text \<open>
  An environment whose globbing always gives the same paths and whose random numbers are
  all the same, and a \<open>TrainingData\<close> object for the directory \<open>/d\<close> with the classes
  \<open>cat,dog\<close> and the test fraction \<open>0.1\<close>.
\<close>

definition fixed_env :: "string list \<Rightarrow> pyfloat \<Rightarrow> env" where
  "fixed_env xmls r = \<lparr>glob = (\<lambda>fs pattern. xmls), random = (\<lambda>n. r)\<rparr>"




text \<open>
  Command lines: only the class list is given, here the empty string; no class list; and
  the class list \<open>cat,dog\<close> with a test fraction. The empty world has no file.
\<close>

definition args_of :: "string option \<Rightarrow> pyfloat option \<Rightarrow> args" where
  "args_of cs p = \<lparr>arg_classes = cs, arg_src = None, arg_dest = None, arg_subdir = None,
                   arg_header = None, arg_percent = p\<rparr>"

definition empty_world :: world where
  "empty_world = \<lparr>files = Map.empty, printed = [], draws = 0\<rparr>"

section \<open>What a run of the splitter counts\<close>

text \<open>
  An annotation file counts for the splitter when its image exists and \<open>convert\<close> returns
  \<open>True\<close> for it (lines 251--258).
\<close>

definition converted :: "(string \<rightharpoonup> int) \<Rightarrow> world \<Rightarrow> string \<Rightarrow> bool" where
  "converted classes w xml =
     (path_exists w (split_head ''.xml'' xml @ ''.jpg'') \<and> fst (convert classes xml w) = Inr True)"



text \<open>
  Two worlds have the same sources when they hold the same files apart from those whose
  name ends in \<open>.txt\<close>.
\<close>

definition same_sources :: "world \<Rightarrow> world \<Rightarrow> bool" where
  "same_sources w w' = (\<forall>p. \<not> endswith p ''.txt'' \<longrightarrow> files w p = files w' p)"

section \<open>Properties of the frame id\<close>

lemma last_chars_append: "length t = n \<Longrightarrow> last_chars n (s @ t) = t"
  by (simp add: last_chars_def)

lemma last_chars_short: "length s \<le> n \<Longrightarrow> last_chars n s = s"
  by (simp add: last_chars_def)

lemma digits_no_dot: "list_all is_digit s \<Longrightarrow> CHR ''.'' \<notin> set s"
  by (induction s) (auto simp: is_digit_def)

lemma split_head_nodot: "CHR ''.'' \<notin> set s \<Longrightarrow> split_head ''.xml'' (s @ ''.xml'') = s"
  by (induction s) auto

lemma length4E: "length s = 4 \<Longrightarrow> \<exists>a b c d. s = [a, b, c, d]"
  by (auto simp: length_Suc_conv numeral_eq_Suc)

lemma length3E: "length s = 3 \<Longrightarrow> \<exists>a b c. s = [a, b, c]"
  by (auto simp: length_Suc_conv numeral_eq_Suc)

lemma sanitize_id_four:
  assumes "isdigit d" "length d = 4"
  shows "sanitize_id (p @ d @ ''.xml'') = Inr d"
proof -
  have l: "last_chars 8 (p @ d @ ''.xml'') = d @ ''.xml''"
    using assms(2) last_chars_append [of "d @ ''.xml''" 8 p] by simp
  have "split_head ''.xml'' (d @ ''.xml'') = d"
    using assms(1) by (intro split_head_nodot digits_no_dot) (simp add: isdigit_def)
  with l assms show ?thesis by (simp add: sanitize_id_def Let_def)
qed

lemma sanitize_id_three:
  assumes "isdigit d" "length d = 3" "\<not> is_digit c"
  shows "sanitize_id (p @ c # d @ ''.xml'') = Inr (CHR ''0'' # d)"
proof -
  have l: "last_chars 8 (p @ c # d @ ''.xml'') = c # d @ ''.xml''"
    using assms(2) last_chars_append [of "c # d @ ''.xml''" 8 p] by simp
  have nd: "CHR ''.'' \<notin> set d" using assms(1) by (intro digits_no_dot) (simp add: isdigit_def)
  obtain x d' where d: "d = x # d'" using assms(2) by (cases d) auto
  have "is_digit x" using assms(1) by (simp add: d isdigit_def)
  then have "x \<noteq> CHR ''x''" by (auto simp: is_digit_def)
  then have "\<not> startswith (c # d @ ''.xml'') ''.xml''" by (simp add: d)
  then have sh: "split_head ''.xml'' (c # d @ ''.xml'') = c # d"
    using split_head_nodot [OF nd] by simp
  have "is_digit CHR ''0''" by (simp add: is_digit_def)
  then have z: "isdigit (CHR ''0'' # d)" using assms(1) by (simp add: isdigit_def)
  have "\<not> isdigit (c # d)" using assms(3) by (simp add: isdigit_def)
  with l sh z assms(2) show ?thesis by (simp add: sanitize_id_def Let_def)
qed

lemma sanitize_id_result:
  assumes "sanitize_id x = Inr r"
  shows "length r = 4 \<and> isdigit r"
  using assms by (auto simp: sanitize_id_def Let_def split: if_splits)

lemma split_head_short:
  "length s < 4 \<Longrightarrow> split_head ''.xml'' (s @ ''.xml'') = (s :: string)"
proof -
  assume "length s < 4"
  then consider "s = []" | "\<exists>a. s = [a]" | "\<exists>a b. s = [a, b]" | "\<exists>a b c. s = [a, b, c]"
    by (cases s; cases "tl s"; cases "tl (tl s)"; cases "tl (tl (tl s))") auto
  then show ?thesis by cases auto
qed

lemma split_head_4:
  "split_head ''.xml'' ([a, b, c, d] @ ''.xml'') = (if [a, b, c, d] = ''.xml'' then [] else [a, b, c, d])"
  by auto

lemma sanitize_id_fail:
  assumes "\<not> isdigit (last_chars 4 stem)"
      and "\<not> isdigit (CHR ''0'' # drop 1 (last_chars 4 stem))"
  shows "sanitize_id (stem @ ''.xml'') = Inl AssertionError"
proof (cases "length stem < 4")
  case True
  then have l: "last_chars 8 (stem @ ''.xml'') = stem @ ''.xml''"
    by (intro last_chars_short) simp
  have t: "last_chars 4 stem = stem" using True by (intro last_chars_short) simp
  show ?thesis using assms True
    by (simp add: sanitize_id_def Let_def l t split_head_short)
next
  case False
  define t where "t = last_chars 4 stem"
  have lt: "length t = 4" using False by (simp add: t_def last_chars_def)
  have st: "stem = take (length stem - 4) stem @ t" by (simp add: t_def last_chars_def)
  have l: "last_chars 8 (stem @ ''.xml'') = t @ ''.xml''"
    using False by (simp add: last_chars_def t_def)
  obtain a b c d where abcd: "t = [a, b, c, d]" using length4E [OF lt] by blast
  show ?thesis
  proof (cases "t = ''.xml''")
    case True
    then show ?thesis by (simp add: sanitize_id_def Let_def l isdigit_def is_digit_def)
  next
    case False
    then have "split_head ''.xml'' (t @ ''.xml'') = t"
      unfolding abcd by (simp only: split_head_4 if_False)
    with assms show ?thesis
      by (simp add: sanitize_id_def Let_def l t_def [symmetric])
  qed
qed

text \<open>
  Claim C2. A frame id of three digits (the character before it is not a digit, as the
  \<open>e\<close> of \<open>frame\<close>) is returned with one \<open>0\<close> in front; a frame id of four digits
  is returned unchanged; and whatever \<open>sanitize_id\<close> returns has exactly four digits.
\<close>

theorem sanitize_id_three_or_four_digits:
  "(isdigit d3 \<and> length d3 = 3 \<and> \<not> is_digit c \<longrightarrow>
      sanitize_id (p @ c # d3 @ ''.xml'') = Inr (CHR ''0'' # d3)) \<and>
   (isdigit d4 \<and> length d4 = 4 \<longrightarrow> sanitize_id (q @ d4 @ ''.xml'') = Inr d4) \<and>
   (sanitize_id x = Inr r \<longrightarrow> length r = 4 \<and> isdigit r)"
  using sanitize_id_three [of d3 c p] sanitize_id_four [of d4 q] sanitize_id_result [of x r]
  by blast

theorem sanitize_id_three_or_four_digits_witness:
  "sanitize_id ''frame023.xml'' = Inr ''0023'' \<and> sanitize_id ''frame1425.xml'' = Inr ''1425''
   \<and> length ''0023'' = 4 \<and> isdigit ''0023''"
proof -
  have a: "isdigit ''023'' \<and> length ''023'' = 3 \<and> \<not> is_digit CHR ''e''"
    by (simp add: isdigit_def is_digit_def)
  have b: "isdigit ''1425'' \<and> length ''1425'' = 4" by (simp add: isdigit_def is_digit_def)
  note t = sanitize_id_three_or_four_digits
    [of "''023''" "CHR ''e''" "''fram''" "''1425''" "''frame''" "''frame023.xml''" "''0023''"]
  from t a have c: "sanitize_id ''frame023.xml'' = Inr ''0023''" by simp
  from t b have d: "sanitize_id ''frame1425.xml'' = Inr ''1425''" by simp
  from t c have "length ''0023'' = 4 \<and> isdigit ''0023''" by blast
  with c d show ?thesis by blast
qed

text \<open>
  Claim C8, as stated, fails: for \<open>frame23.xml\<close> the slice is \<open>me23\<close>, padded to
  \<open>0e23\<close>, which is not all digits, so the first \<open>assert\<close> raises.
\<close>

theorem frame23_is_rejected:
  "sanitize_id ''frame23.xml'' = Inl AssertionError \<and> sanitize_id ''frame23.xml'' \<noteq> Inr ''0023''"
  by (simp add: sanitize_id_def last_chars_def isdigit_def is_digit_def)

text \<open>
  Claim C8, amended. A name that ends in two digits after a non-digit character, such as
  \<open>frame23.xml\<close>, is rejected: \<open>sanitize_id\<close> raises an AssertionError. The
  flattener stops there: when the image of such an annotation file exists, the loop over
  the annotation files raises the AssertionError at that file and copies neither it nor
  any later file.
\<close>

theorem sanitize_id_two_digits:
  assumes "isdigit d" "length d = 2" "\<not> is_digit c"
  shows "sanitize_id (p @ c # d @ ''.xml'') = Inl AssertionError
         \<and> (path_tail xml = p @ c # d @ ''.xml''
              \<and> path_exists w (split_head ''.xml'' xml @ ''.jpg'')
            \<longrightarrow> sanitize_xmls head (xml # xmls) (im, w) = (Inl AssertionError, im, w))"
proof -
  have s: "sanitize_id (p @ c # d @ ''.xml'') = Inl AssertionError"
  proof (cases p rule: rev_cases)
    case Nil
    have l: "last_chars 8 (c # d @ ''.xml'') = (c # d) @ ''.xml''"
      using assms(2) by (simp add: last_chars_def)
    have sh: "split_head ''.xml'' ((c # d) @ ''.xml'') = c # d"
      using assms(2) by (intro split_head_short) simp
    show ?thesis using assms(2,3) unfolding Nil
      by (simp add: sanitize_id_def Let_def l sh [simplified] isdigit_def)
  next
    case (snoc p' b)
    have u: "last_chars 4 (p @ c # d) = b # c # d"
      using assms(2) by (simp add: snoc last_chars_def)
    have n1: "\<not> isdigit (last_chars 4 (p @ c # d))"
      using assms(3) by (simp add: u isdigit_def)
    have n2: "\<not> isdigit (CHR ''0'' # drop 1 (last_chars 4 (p @ c # d)))"
      using assms(3) by (simp add: u isdigit_def)
    show ?thesis using sanitize_id_fail [OF n1 n2] by simp
  qed
  have "sanitize_xmls head (xml # xmls) (im, w) = (Inl AssertionError, im, w)"
    if "path_tail xml = p @ c # d @ ''.xml''"
      and "path_exists w (split_head ''.xml'' xml @ ''.jpg'')"
    using that s by (simp add: sanitize_pair_def Let_def)
  with s show ?thesis by blast
qed

theorem sanitize_id_two_digits_witness:
  "sanitize_id ''frame23.xml'' = Inl AssertionError
   \<and> path_tail ''/in/movie1/frame23.xml'' = ''frame23.xml''
   \<and> path_exists
        \<lparr>files = [''/in/movie1/frame23.xml'' \<mapsto> Raw ''<annotation/>'',
                  ''/in/movie1/frame23.jpg'' \<mapsto> Raw ''JFIF''],
         printed = [], draws = 0\<rparr>
        (split_head ''.xml'' ''/in/movie1/frame23.xml'' @ ''.jpg'')
   \<and> sanitize_xmls ''sample1_frame'' [''/in/movie1/frame23.xml'', ''/in/movie1/frame024.xml'']
        (new_image_data ''/in'' ''/out'' ''sample'',
         \<lparr>files = [''/in/movie1/frame23.xml'' \<mapsto> Raw ''<annotation/>'',
                   ''/in/movie1/frame23.jpg'' \<mapsto> Raw ''JFIF''],
          printed = [], draws = 0\<rparr>)
       = (Inl AssertionError, new_image_data ''/in'' ''/out'' ''sample'',
          \<lparr>files = [''/in/movie1/frame23.xml'' \<mapsto> Raw ''<annotation/>'',
                    ''/in/movie1/frame23.jpg'' \<mapsto> Raw ''JFIF''],
           printed = [], draws = 0\<rparr>)"
proof -
  let ?w = "\<lparr>files = [''/in/movie1/frame23.xml'' \<mapsto> Raw ''<annotation/>'',
                     ''/in/movie1/frame23.jpg'' \<mapsto> Raw ''JFIF''],
            printed = [], draws = 0\<rparr>"
  have d: "isdigit ''23''" "length ''23'' = 2" "\<not> is_digit CHR ''e''"
    by (simp_all add: isdigit_def is_digit_def)
  have t: "path_tail ''/in/movie1/frame23.xml'' = ''fram'' @ CHR ''e'' # ''23'' @ ''.xml''"
    by (simp add: path_tail_def)
  have j: "path_exists ?w (split_head ''.xml'' ''/in/movie1/frame23.xml'' @ ''.jpg'')"
    by (simp add: path_exists_def)
  from sanitize_id_two_digits [OF d, of "''fram''" "''/in/movie1/frame23.xml''" ?w
      "''sample1_frame''" "[''/in/movie1/frame024.xml'']" "new_image_data ''/in'' ''/out'' ''sample''"]
    t j
  show ?thesis by simp
qed

text \<open>
  Claim C9. When the last four characters of the name before \<open>.xml\<close> are not all
  digits, and are still not all digits after the first of them is replaced by \<open>0\<close>,
  \<open>sanitize_id\<close> raises an AssertionError and returns no id.
\<close>

theorem sanitize_id_fails_loudly:
  "\<not> isdigit (last_chars 4 stem) \<Longrightarrow>
   \<not> isdigit (CHR ''0'' # drop 1 (last_chars 4 stem)) \<Longrightarrow>
   sanitize_id (stem @ ''.xml'') = Inl AssertionError"
  by (rule sanitize_id_fail)

theorem sanitize_id_fails_loudly_witness:
  "\<not> isdigit (last_chars 4 ''frame1x3'') \<and>
   \<not> isdigit (CHR ''0'' # drop 1 (last_chars 4 ''frame1x3'')) \<and>
   sanitize_id ''frame1x3.xml'' = Inl AssertionError"
proof -
  have a: "\<not> isdigit (last_chars 4 ''frame1x3'')"
    by (simp add: last_chars_def isdigit_def is_digit_def)
  have b: "\<not> isdigit (CHR ''0'' # drop 1 (last_chars 4 ''frame1x3''))"
    by (simp add: last_chars_def isdigit_def is_digit_def)
  from sanitize_id_fails_loudly [OF a b] a b show ?thesis by simp
qed

subsection \<open>Longer frame ids\<close>

lemma isdigit_last_chars: "isdigit ds \<Longrightarrow> 4 \<le> length ds \<Longrightarrow> isdigit (last_chars 4 ds)"
  by (auto simp: isdigit_def last_chars_def list_all_iff dest: in_set_dropD)

text \<open>
  Claim C10. When the name before \<open>.xml\<close> ends in four or more digits, \<open>sanitize_id\<close>
  succeeds and returns the last four of them, whatever precedes.
\<close>

theorem sanitize_id_truncates:
  assumes "isdigit ds" "4 \<le> length ds"
  shows "sanitize_id (p @ ds @ ''.xml'') = Inr (last_chars 4 ds)"
proof -
  have s: "ds = take (length ds - 4) ds @ last_chars 4 ds" by (simp add: last_chars_def)
  have l: "length (last_chars 4 ds) = 4" using assms(2) by (simp add: last_chars_def)
  have "sanitize_id ((p @ take (length ds - 4) ds) @ last_chars 4 ds @ ''.xml'')
        = Inr (last_chars 4 ds)"
    by (rule sanitize_id_four [OF isdigit_last_chars [OF assms] l])
  then show ?thesis using s by (metis append.assoc)
qed

theorem sanitize_id_truncates_witness:
  "sanitize_id ''frame12345.xml'' = Inr ''2345''"
proof -
  have "isdigit ''12345''" "4 \<le> length ''12345''" by (simp_all add: isdigit_def is_digit_def)
  from sanitize_id_truncates [OF this, of "''frame''"] show ?thesis
    by (simp add: last_chars_def)
qed

section \<open>Properties of the float arithmetic\<close>

declare bit_length.simps [simp del]

lemma bit_length_pos: "0 < n \<Longrightarrow> bit_length n = Suc (bit_length (n div 2))"
  by (subst bit_length.simps) simp

lemma bit_length_nonpos: "n \<le> 0 \<Longrightarrow> bit_length n = 0"
  by (subst bit_length.simps) simp

lemma bit_length_bounds:
  "0 < n \<Longrightarrow> n < 2 ^ bit_length n \<and> 2 ^ (bit_length n - 1) \<le> n"
proof (induction n rule: bit_length.induct)
  case (1 n)
  have b: "bit_length n = Suc (bit_length (n div 2))" using "1.prems" by (rule bit_length_pos)
  show ?case
  proof (cases "n = 1")
    case True
    have "bit_length 1 = 1" by (simp add: bit_length_pos bit_length_nonpos)
    with True show ?thesis by simp
  next
    case False
    with "1.prems" have h: "0 < n div 2" by simp
    have ih: "n div 2 < 2 ^ bit_length (n div 2) \<and> 2 ^ (bit_length (n div 2) - 1) \<le> n div 2"
      using "1.IH" "1.prems" h by simp
    obtain j where j: "bit_length (n div 2) = Suc j" using bit_length_pos [OF h] by simp
    from ih have "n < 2 * 2 ^ bit_length (n div 2)" by linarith
    moreover from ih have "2 * 2 ^ j \<le> n" unfolding j by simp linarith
    ultimately show ?thesis by (simp add: b j)
  qed
qed

lemma pow2_pos: "0 < pow2 k"
  by (simp add: pow2_def)

lemma pow2_add: "pow2 (j + k) = pow2 j * pow2 k"
proof -
  have "pow2 k = 2 powi k" for k
    by (simp add: pow2_def power_int_def inverse_eq_divide power_one_over)
  then show ?thesis by (simp add: power_int_add)
qed

lemma pow2_mono: "j \<le> k \<Longrightarrow> pow2 j \<le> pow2 k"
proof -
  assume "j \<le> k"
  then obtain d where d: "k = j + int d" using zle_iff_zadd by blast
  have "1 \<le> pow2 (int d)" by (simp add: pow2_def)
  then have "pow2 j * 1 \<le> pow2 j * pow2 (int d)"
    using pow2_pos [of j] by (intro mult_left_mono) simp_all
  then show ?thesis by (simp add: d pow2_add)
qed

lemma pow2_less: "pow2 j < pow2 k \<Longrightarrow> j < k"
  using pow2_mono [of k j] by (cases "j < k") simp_all

lemma pow2_of_nat: "pow2 (int n) = 2 ^ n"
  by (simp add: pow2_def)

lemma bit_length_rat:
  assumes "0 < n"
  shows "(of_int n :: rat) < pow2 (int (bit_length n))"
    and "pow2 (int (bit_length n) - 1) \<le> of_int n"
proof -
  obtain j where j: "bit_length n = Suc j" using bit_length_pos [OF assms] by simp
  from bit_length_bounds [OF assms] have a: "n < 2 ^ Suc j" and b: "2 ^ j \<le> n"
    by (simp_all add: j)
  have "(of_int n :: rat) < of_int (2 ^ Suc j)" using a by (simp only: of_int_less_iff)
  also have "(of_int (2 ^ Suc j) :: rat) = 2 ^ Suc j" by simp
  finally show "(of_int n :: rat) < pow2 (int (bit_length n))"
    by (simp only: j pow2_of_nat)
  have "(of_int (2 ^ j) :: rat) \<le> of_int n" using b by (simp only: of_int_le_iff)
  moreover have "(of_int (2 ^ j) :: rat) = 2 ^ j" by simp
  moreover have "int (bit_length n) - 1 = int j" by (simp add: j)
  ultimately show "pow2 (int (bit_length n) - 1) \<le> of_int n"
    by (simp only: pow2_of_nat)
qed

lemma floor_log2_bounds:
  assumes "0 < m"
  shows "pow2 (floor_log2 m) \<le> m \<and> m < pow2 (floor_log2 m + 1)"
proof -
  obtain p q where pq: "quotient_of m = (p, q)" by (cases "quotient_of m")
  then have q: "0 < q" by (rule quotient_of_denom_pos)
  have m: "m = of_int p / of_int q" using pq by (rule quotient_of_div)
  with assms q have p: "0 < p" by (simp add: zero_less_divide_iff)
  define k where "k = int (bit_length p) - int (bit_length q)"
  have qr: "(0::rat) < of_int q" using q by simp
  have up: "m < pow2 (k + 1)"
  proof -
    have e: "pow2 (k + 1) * pow2 (int (bit_length q) - 1) = pow2 (int (bit_length p))"
      unfolding pow2_add [symmetric] k_def by simp
    have "of_int p < pow2 (k + 1) * pow2 (int (bit_length q) - 1)"
      unfolding e by (rule bit_length_rat(1) [OF p])
    also have "\<dots> \<le> pow2 (k + 1) * of_int q"
      by (rule mult_left_mono [OF bit_length_rat(2) [OF q] less_imp_le [OF pow2_pos]])
    finally have "of_int p < pow2 (k + 1) * of_int q" .
    then have "of_int p / of_int q < pow2 (k + 1)" using qr by (simp only: pos_divide_less_eq)
    then show ?thesis by (simp only: m)
  qed
  have lo: "pow2 (k - 1) < m"
  proof -
    have e: "pow2 (k - 1) * pow2 (int (bit_length q)) = pow2 (int (bit_length p) - 1)"
      unfolding pow2_add [symmetric] k_def by simp
    have "pow2 (k - 1) * of_int q < pow2 (k - 1) * pow2 (int (bit_length q))"
      by (rule mult_strict_left_mono [OF bit_length_rat(1) [OF q] pow2_pos])
    also have "\<dots> = pow2 (int (bit_length p) - 1)" by (rule e)
    also have "\<dots> \<le> of_int p" by (rule bit_length_rat(2) [OF p])
    finally have "pow2 (k - 1) * of_int q < of_int p" .
    then have "pow2 (k - 1) < of_int p / of_int q" using qr by (simp only: pos_less_divide_eq)
    then show ?thesis by (simp only: m)
  qed
  have f: "floor_log2 m = (if pow2 k \<le> m then k else k - 1)"
    unfolding floor_log2_def pq k_def by (simp add: Let_def)
  show ?thesis
  proof (cases "pow2 k \<le> m")
    case True
    with f up show ?thesis by simp
  next
    case False
    then have "floor_log2 m = k - 1" using f by simp
    with False lo show ?thesis by simp
  qed
qed

lemma floor_log2_eq:
  assumes "pow2 k \<le> m" "m < pow2 (k + 1)"
  shows "floor_log2 m = k"
proof -
  have "0 < m" using assms(1) pow2_pos [of k] by linarith
  from floor_log2_bounds [OF this]
  have a: "pow2 (floor_log2 m) \<le> m" and b: "m < pow2 (floor_log2 m + 1)" by simp_all
  have "pow2 (floor_log2 m) < pow2 (k + 1)" using a assms(2) by linarith
  then have "floor_log2 m < k + 1" by (rule pow2_less)
  moreover have "pow2 k < pow2 (floor_log2 m + 1)" using b assms(1) by linarith
  then have "k < floor_log2 m + 1" by (rule pow2_less)
  ultimately show ?thesis by linarith
qed

lemma round_half_even_of_int: "round_half_even (of_int n) = n"
  by (simp add: round_half_even_def Let_def)

lemma round_double_eval:
  assumes "pow2 k \<le> m" "m < pow2 (k + 1)"
    and "round_half_even (m / pow2 (max (k - 52) (- 1074))) = c"
    and "of_int c * pow2 (max (k - 52) (- 1074)) < pow2 1024"
  shows "round_double m = Some (of_int c * pow2 (max (k - 52) (- 1074)))"
proof -
  have "0 < m" using assms(1) pow2_pos [of k] by linarith
  then have "m \<noteq> 0" by simp
  moreover have "floor_log2 m = k" using assms(1,2) by (rule floor_log2_eq)
  ultimately show ?thesis using assms(3,4)
    by (simp add: round_double_def Let_def)
qed

lemma round_double_exact:
  assumes "pow2 k \<le> m" "m < pow2 (k + 1)" "k < 1024"
    and "m = of_int n * pow2 j" "max (k - 52) (- 1074) \<le> j"
  shows "round_double m = Some m"
proof -
  define e where "e = max (k - 52) (- 1074)"
  obtain d where d: "j = e + int d" using assms(5) zle_iff_zadd unfolding e_def by blast
  have ne: "pow2 e \<noteq> 0" using pow2_pos [of e] by simp
  have "m = of_int (n * 2 ^ d) * pow2 e"
    by (simp add: assms(4) d pow2_add pow2_of_nat)
  then have q: "m / pow2 e = of_int (n * 2 ^ d)" using ne by simp
  have r: "round_half_even (m / pow2 e) = n * 2 ^ d"
    unfolding q by (rule round_half_even_of_int)
  have bk: "of_int (n * 2 ^ d) * pow2 e = m" using q ne by (simp add: field_simps)
  have "pow2 (k + 1) \<le> pow2 1024" using assms(3) by (intro pow2_mono) simp
  then have lt: "of_int (n * 2 ^ d) * pow2 e < pow2 1024" using assms(2) bk by linarith
  from round_double_eval [OF assms(1,2) r [unfolded e_def] lt [unfolded e_def]]
  show ?thesis using bk by (simp add: e_def)
qed

text \<open>Integers and half-integers below \<open>2^52\<close> are floats.\<close>

lemma round_double_half:
  assumes "0 < n" "n < 2 ^ 53"
  shows "round_double (of_int n / 2) = Some (of_int n / 2)"
proof -
  define m :: rat where "m = of_int n / 2"
  have mp: "0 < m" using assms(1) by (simp add: m_def)
  define k where "k = floor_log2 m"
  from floor_log2_bounds [OF mp] have b: "pow2 k \<le> m" "m < pow2 (k + 1)" by (simp_all add: k_def)
  have "(of_int n :: rat) < of_int (2 ^ 53)" using assms(2) by (simp only: of_int_less_iff)
  then have "m < pow2 52" by (simp add: m_def pow2_def)
  with b(1) have "pow2 k < pow2 52" by linarith
  then have k: "k < 52" by (rule pow2_less)
  have j: "m = of_int n * pow2 (- 1)" by (simp add: m_def pow2_def)
  have k1: "k < 1024" using k by simp
  have k2: "max (k - 52) (- 1074) \<le> - 1" using k by simp
  have "round_double m = Some m"
    by (rule round_double_exact [OF b(1) b(2) k1 j k2])
  then show ?thesis by (simp only: m_def)
qed

lemma round_double_int:
  assumes "0 < n" "n < 2 ^ 52"
  shows "round_double (of_int n) = Some (of_int n)"
proof -
  have "0 < 2 * n" "2 * n < 2 ^ 53" using assms by simp_all
  from round_double_half [OF this] show ?thesis by simp
qed

lemma float_of_int_exact: "0 < n \<Longrightarrow> n < 2 ^ 52 \<Longrightarrow> float_of_int n = Inr (Finite False (of_int n))"
  using round_double_int [of n] by (simp add: float_of_int_def)

lemma round_half_even_near:
  assumes "\<bar>x - of_int c\<bar> < 1 / 2"
  shows "round_half_even x = c"
proof -
  from assms have a: "x - of_int c < 1 / 2" "of_int c - x < 1 / 2" by linarith+
  show ?thesis
  proof (cases "of_int c \<le> x")
    case True
    have u: "x < of_int c + 1" using a by linarith
    have "\<lfloor>x\<rfloor> = c" using True u by (rule floor_unique)
    then show ?thesis using a by (simp add: round_half_even_def Let_def)
  next
    case False
    have c1: "(of_int (c - 1) :: rat) = of_int c - 1" by simp
    have l: "of_int (c - 1) \<le> x" unfolding c1 using a by linarith
    have u: "x < of_int (c - 1) + 1" unfolding c1 using False by linarith
    have f: "\<lfloor>x\<rfloor> = c - 1" using l u by (rule floor_unique)
    have "1 / 2 < x - of_int (c - 1)" unfolding c1 using a by linarith
    then show ?thesis using f by (simp add: round_half_even_def Let_def)
  qed
qed

lemma rd_3_10: "round_double (3 / 10) = Some (5404319552844595 / 18014398509481984)"
proof -
  have "round_double (3 / 10) = Some (of_int 5404319552844595 * pow2 (max (- 2 - 52) (- 1074)))"
  proof (rule round_double_eval)
    show "pow2 (- 2) \<le> 3 / 10" by (simp add: pow2_def)
    show "3 / 10 < pow2 (- 2 + 1)" by (simp add: pow2_def)
    show "round_half_even (3 / 10 / pow2 (max (- 2 - 52) (- 1074))) = 5404319552844595"
      by (rule round_half_even_near) (simp add: pow2_def)
    show "of_int 5404319552844595 * pow2 (max (- 2 - 52) (- 1074)) < pow2 1024"
      by (simp add: pow2_def)
  qed
  then show ?thesis by (simp add: pow2_def)
qed

lemma rd_1_5: "round_double (1 / 5) = Some (3602879701896397 / 18014398509481984)"
proof -
  have "round_double (1 / 5) = Some (of_int 7205759403792794 * pow2 (max (- 3 - 52) (- 1074)))"
  proof (rule round_double_eval)
    show "pow2 (- 3) \<le> 1 / 5" by (simp add: pow2_def)
    show "1 / 5 < pow2 (- 3 + 1)" by (simp add: pow2_def)
    show "round_half_even (1 / 5 / pow2 (max (- 3 - 52) (- 1074))) = 7205759403792794"
      by (rule round_half_even_near) (simp add: pow2_def)
    show "of_int 7205759403792794 * pow2 (max (- 3 - 52) (- 1074)) < pow2 1024"
      by (simp add: pow2_def)
  qed
  then show ?thesis by (simp add: pow2_def)
qed

lemma rd_2_5: "round_double (2 / 5) = Some (3602879701896397 / 9007199254740992)"
proof -
  have "round_double (2 / 5) = Some (of_int 7205759403792794 * pow2 (max (- 2 - 52) (- 1074)))"
  proof (rule round_double_eval)
    show "pow2 (- 2) \<le> 2 / 5" by (simp add: pow2_def)
    show "2 / 5 < pow2 (- 2 + 1)" by (simp add: pow2_def)
    show "round_half_even (2 / 5 / pow2 (max (- 2 - 52) (- 1074))) = 7205759403792794"
      by (rule round_half_even_near) (simp add: pow2_def)
    show "of_int 7205759403792794 * pow2 (max (- 2 - 52) (- 1074)) < pow2 1024"
      by (simp add: pow2_def)
  qed
  then show ?thesis by (simp add: pow2_def)
qed

lemma rd_1_2: "round_double (1 / 2) = Some (1 / 2)"
  using round_double_half [of 1] by simp

lemma first_some_upt: "f 1 = Some y \<Longrightarrow> first_some f [1 ..< 18] = Some y"
proof -
  assume f: "f 1 = Some y"
  have "[1 ..< 18] = 1 # [2 ..< 18]" by (simp add: upt_conv_Cons)
  then show ?thesis using f by simp
qed

lemma digits_candidate_hi:
  assumes "floor_log10 m - int n + 1 = e" "\<lfloor>m / pow10 e\<rfloor> = lo"
    and "round_double (of_int lo * pow10 e) \<noteq> Some m"
    and "round_double (of_int (lo + 1) * pow10 e) = Some m"
  shows "digits_candidate m n = Some (lo + 1, e)"
  using assms by (simp add: digits_candidate_def Let_def)

lemma digits_candidate_lo:
  assumes "floor_log10 m - int n + 1 = e" "\<lfloor>m / pow10 e\<rfloor> = lo"
    and "round_double (of_int lo * pow10 e) = Some m"
    and "round_double (of_int (lo + 1) * pow10 e) \<noteq> Some m"
  shows "digits_candidate m n = Some (lo, e)"
  using assms by (simp add: digits_candidate_def Let_def)

text \<open>The texts of the floats \<open>0.3\<close> and \<open>0.4\<close>.\<close>

lemma float_repr_0_3: "float_repr (make_float False (3 / 10)) = ''0.3''"
proof -
  define m :: rat where "m = 5404319552844595 / 18014398509481984"
  have mk: "make_float False (3 / 10) = Finite False m"
    by (simp add: make_float_def rd_3_10 m_def)
  have fl: "floor_log10 m - int 1 + 1 = - 1"
    by (simp add: m_def floor_log10_def ilog10_down.simps)
  have lo: "\<lfloor>m / pow10 (- 1)\<rfloor> = 2"
    by (rule floor_unique) (simp_all add: m_def pow10_def)
  have a: "of_int 2 * pow10 (- 1) = 1 / 5" by (simp add: pow10_def)
  have b: "of_int (2 + 1) * pow10 (- 1) = 3 / 10" by (simp add: pow10_def)
  have na: "round_double (of_int 2 * pow10 (- 1)) \<noteq> Some m"
    unfolding a rd_1_5 by (simp add: m_def)
  have hb: "round_double (of_int (2 + 1) * pow10 (- 1)) = Some m"
    unfolding b rd_3_10 by (simp add: m_def)
  have c: "digits_candidate m 1 = Some (3, - 1)"
    using digits_candidate_hi [OF fl lo na hb] by simp
  have s: "shortest_digits m = (3, - 1)"
    unfolding shortest_digits_def first_some_upt [of "digits_candidate m", OF c] by simp
  have "m \<noteq> 0" by (simp add: m_def)
  then show ?thesis
    by (simp add: mk float_repr_def s str_digits.simps digit_char_def format_repr_def)
qed

lemma float_repr_0_4: "float_repr (make_float False (2 / 5)) = ''0.4''"
proof -
  define m :: rat where "m = 3602879701896397 / 9007199254740992"
  have mk: "make_float False (2 / 5) = Finite False m"
    by (simp add: make_float_def rd_2_5 m_def)
  have fl: "floor_log10 m - int 1 + 1 = - 1"
    by (simp add: m_def floor_log10_def ilog10_down.simps)
  have lo: "\<lfloor>m / pow10 (- 1)\<rfloor> = 4"
    by (rule floor_unique) (simp_all add: m_def pow10_def)
  have a: "of_int 4 * pow10 (- 1) = 2 / 5" by (simp add: pow10_def)
  have b: "of_int (4 + 1) * pow10 (- 1) = 1 / 2" by (simp add: pow10_def)
  have ha: "round_double (of_int 4 * pow10 (- 1)) = Some m"
    unfolding a rd_2_5 by (simp add: m_def)
  have nb: "round_double (of_int (4 + 1) * pow10 (- 1)) \<noteq> Some m"
    unfolding b rd_1_2 by (simp add: m_def)
  have c: "digits_candidate m 1 = Some (4, - 1)"
    using digits_candidate_lo [OF fl lo ha nb] by simp
  have s: "shortest_digits m = (4, - 1)"
    unfolding shortest_digits_def first_some_upt [of "digits_candidate m", OF c] by simp
  have "m \<noteq> 0" by (simp add: m_def)
  then show ?thesis
    by (simp add: mk float_repr_def s str_digits.simps digit_char_def format_repr_def)
qed

section \<open>Properties of the converter: the line of a box\<close>

lemma bind_Inr: "bind (Inr x) f = f x"
  by (simp add: bind_def)

lemma bind_Inl: "bind (Inl e) f = Inl e"
  by (simp add: bind_def)

lemma coordinate_pos: "coordinate t box = Inr v \<Longrightarrow> 0 < v"
  by (auto simp: coordinate_def bind_def split: sum.splits if_splits)

lemma make_float_half:
  "0 < n \<Longrightarrow> n < 2 ^ 53 \<Longrightarrow> make_float False (of_int n / 2) = Finite False (of_int n / 2)"
  by (simp add: make_float_def round_double_half)

lemma center_exact:
  assumes "0 < a" "a < 2 ^ 52" "0 < lo" "lo < 2 ^ 52" "a + 2 * lo < 2 ^ 53"
    and "0 < extent" "extent < 2 ^ 52"
  shows "center (Finite False (of_int a)) lo extent
         = Inr (make_float False ((of_int lo + of_int a / 2) / of_int extent))"
proof -
  have two: "float_of_int 2 = Inr (Finite False 2)"
    using float_of_int_exact [of 2] by simp
  have half: "float_truediv (Finite False (of_int a)) (Finite False 2)
              = Inr (Finite False (of_int a / 2))"
    using make_float_half [of a] assms(1,2) by simp
  have lo: "float_of_int lo = Inr (Finite False (of_int lo))"
    using assms(3,4) by (rule float_of_int_exact)
  have ex: "float_of_int extent = Inr (Finite False (of_int extent))"
    using assms(6,7) by (rule float_of_int_exact)
  define v :: rat where "v = of_int (a + 2 * lo) / 2"
  have vp: "0 < v" using assms(1,3) by (simp add: v_def)
  have sg: "signed False (of_int a / 2) + signed False (of_int lo) = v"
    by (simp add: v_def signed_def)
  have "float_add (Finite False (of_int a / 2)) (Finite False (of_int lo)) = make_float False v"
    unfolding float_add.simps sg Let_def using vp by simp
  moreover have "make_float False v = Finite False v"
    unfolding v_def using assms(1,3,5) by (intro make_float_half) simp_all
  ultimately have add: "float_add (Finite False (of_int a / 2)) (Finite False (of_int lo))
             = Finite False (of_int (a + 2 * lo) / 2)"
    by (simp add: v_def)
  have ne: "(of_int extent :: rat) \<noteq> 0" using assms(6) by simp
  have e: "(of_int (a + 2 * lo) / 2 :: rat) = of_int lo + of_int a / 2" by simp
  have "float_truediv (Finite False (of_int (a + 2 * lo) / 2)) (Finite False (of_int extent))
        = Inr (make_float False (of_int (a + 2 * lo) / 2 / of_int extent))"
    using ne by (simp del: of_int_add of_int_mult)
  then show ?thesis
    unfolding center_def two bind_Inr half lo ex add e .
qed

lemma relative_exact:
  assumes "0 < a" "a < 2 ^ 52" "0 < extent" "extent < 2 ^ 52"
  shows "relative (Finite False (of_int a)) extent
         = Inr (make_float False (of_int a / of_int extent))"
proof -
  have ex: "float_of_int extent = Inr (Finite False (of_int extent))"
    using assms(3,4) by (rule float_of_int_exact)
  have ne: "(of_int extent :: rat) \<noteq> 0" using assms(3) by simp
  show ?thesis unfolding relative_def ex bind_Inr using ne by simp
qed

text \<open>
  The line of a box with \<open>xmin < xmax\<close> and \<open>ymin < ymax\<close> in an image, all numbers
  below \<open>2^52\<close>: each of the four numbers is the float nearest to the exact quotient.
\<close>

lemma bndbox_line_value:
  assumes c: "coordinate ''xmin'' box = Inr xmin" "coordinate ''xmax'' box = Inr xmax"
      "coordinate ''ymin'' box = Inr ymin" "coordinate ''ymax'' box = Inr ymax"
    and o: "xmin < xmax" "ymin < ymax"
    and u: "xmax < 2 ^ 52" "ymax < 2 ^ 52"
    and i: "0 < img_width" "img_width < 2 ^ 52" "0 < img_height" "img_height < 2 ^ 52"
  shows "bndbox_line class_id img_width img_height box
         = Inr (str_int class_id
                @ '' '' @ float_repr (make_float False
                            ((of_int xmin + of_int (xmax - xmin) / 2) / of_int img_width))
                @ '' '' @ float_repr (make_float False
                            ((of_int ymin + of_int (ymax - ymin) / 2) / of_int img_height))
                @ '' '' @ float_repr (make_float False
                            (of_int (xmax - xmin) / of_int img_width))
                @ '' '' @ float_repr (make_float False
                            (of_int (ymax - ymin) / of_int img_height))
                @ [CHR 0x0A])"
proof -
  have xp: "0 < xmin" using c(1) by (rule coordinate_pos)
  have yp: "0 < ymin" using c(3) by (rule coordinate_pos)
  have w: "0 < xmax - xmin" "xmax - xmin < 2 ^ 52" using o(1) u(1) xp by simp_all
  have h: "0 < ymax - ymin" "ymax - ymin < 2 ^ 52" using o(2) u(2) yp by simp_all
  have xl: "xmin < 2 ^ 52" using o(1) u(1) by simp
  have yl: "ymin < 2 ^ 52" using o(2) u(2) by simp
  have xs: "xmax - xmin + 2 * xmin < 2 ^ 53" using xl u(1) by simp
  have ys: "ymax - ymin + 2 * ymin < 2 ^ 53" using yl u(2) by simp
  have fw: "float_of_int (xmax - xmin) = Inr (Finite False (of_int (xmax - xmin)))"
    using w by (rule float_of_int_exact)
  have fh: "float_of_int (ymax - ymin) = Inr (Finite False (of_int (ymax - ymin)))"
    using h by (rule float_of_int_exact)
  note cx = center_exact [OF w xp xl xs i(1,2)]
  note cy = center_exact [OF h yp yl ys i(3,4)]
  note rw = relative_exact [OF w i(1,2)]
  note rh = relative_exact [OF h i(3,4)]
  show ?thesis
    unfolding bndbox_line_def c bind_Inr fw fh cx cy rw rh by (rule refl)
qed

text \<open>The box of the scenario: \<open>xmin = 10\<close>, \<open>ymin = 20\<close>, \<open>xmax = 50\<close>, \<open>ymax = 60\<close>.\<close>

lemma coordinate_leaf:
  "coordinate ''xmin'' (bndbox_node ''10'' ''20'' ''50'' ''60'') = Inr 10"
  "coordinate ''ymin'' (bndbox_node ''10'' ''20'' ''50'' ''60'') = Inr 20"
  "coordinate ''xmax'' (bndbox_node ''10'' ''20'' ''50'' ''60'') = Inr 50"
  "coordinate ''ymax'' (bndbox_node ''10'' ''20'' ''50'' ''60'') = Inr 60"
  by (simp_all add: coordinate_def find_int_def find_text_def find_child_def bndbox_node_def
      leaf_def bind_def py_int_def strip_def isspace_def int_literal_def is_digit_def
      digit_val_def)

lemma scenario_line:
  "bndbox_line 0 100 100 (bndbox_node ''10'' ''20'' ''50'' ''60'')
   = Inr (''0 0.3 0.4 0.4 0.4'' @ [CHR 0x0A])"
proof -
  have a: "((of_int 10 + of_int (50 - 10) / 2) / of_int 100 :: rat) = 3 / 10" by simp
  have b: "((of_int 20 + of_int (60 - 20) / 2) / of_int 100 :: rat) = 2 / 5" by simp
  have c: "(of_int (50 - 10) / of_int 100 :: rat) = 2 / 5" by simp
  have d: "(of_int (60 - 20) / of_int 100 :: rat) = 2 / 5" by simp
  have s: "str_int 0 = ''0''" by (simp add: str_int_def str_digits.simps digit_char_def)
  have "bndbox_line 0 100 100 (bndbox_node ''10'' ''20'' ''50'' ''60'')
        = Inr (str_int 0 @ '' '' @ float_repr (make_float False (3 / 10))
               @ '' '' @ float_repr (make_float False (2 / 5))
               @ '' '' @ float_repr (make_float False (2 / 5))
               @ '' '' @ float_repr (make_float False (2 / 5)) @ [CHR 0x0A])"
    using bndbox_line_value [OF coordinate_leaf(1,3,2,4), of 100 100 0]
    unfolding a b c d by simp
  then show ?thesis unfolding s float_repr_0_3 float_repr_0_4 by simp
qed

section \<open>Properties of the converter: the loops\<close>

lemma bndbox_line_nonempty: "bndbox_line class_id iw ih box = Inr l \<Longrightarrow> l \<noteq> []"
  unfolding bndbox_line_def bind_def by (auto split: sum.splits)

lemma bndbox_loop_lines:
  "list_all2 (\<lambda>box l. bndbox_line class_id iw ih box = Inr l) boxes ls \<Longrightarrow>
   bndbox_loop class_id iw ih boxes d = Inr (d @ concat ls)"
proof (induction boxes arbitrary: ls d)
  case Nil
  then show ?case by simp
next
  case (Cons box boxes)
  from Cons.prems obtain l ls' where ls: "ls = l # ls'"
    and l: "bndbox_line class_id iw ih box = Inr l"
    and r: "list_all2 (\<lambda>box l. bndbox_line class_id iw ih box = Inr l) boxes ls'"
    by (auto simp: list_all2_Cons1)
  from Cons.IH [OF r, of "d @ l"] show ?case by (simp add: ls l bind_Inr)
qed

lemma bndbox_loop_success:
  "bndbox_loop class_id iw ih boxes d = Inr data \<Longrightarrow>
   \<exists>ls. list_all2 (\<lambda>box l. bndbox_line class_id iw ih box = Inr l) boxes ls \<and> data = d @ concat ls"
proof (induction boxes arbitrary: d)
  case Nil
  then show ?case by simp
next
  case (Cons box boxes)
  show ?case
  proof (cases "bndbox_line class_id iw ih box")
    case (Inl e)
    with Cons.prems show ?thesis by (simp add: bind_Inl)
  next
    case (Inr l)
    with Cons.prems have "bndbox_loop class_id iw ih boxes (d @ l) = Inr data"
      by (simp add: bind_Inr)
    from Cons.IH [OF this] obtain ls where
      "list_all2 (\<lambda>box l. bndbox_line class_id iw ih box = Inr l) boxes ls"
      "data = (d @ l) @ concat ls" by blast
    with Inr have
      "list_all2 (\<lambda>box l. bndbox_line class_id iw ih box = Inr l) (box # boxes) (l # ls)
       \<and> data = d @ concat (l # ls)" by simp
    then show ?thesis by blast
  qed
qed

lemma class_of_unrecognized: "unrecognized classes obj \<Longrightarrow> class_of classes obj = None"
  by (auto simp: unrecognized_def class_of_def split: sum.splits)

lemma class_of_SomeD:
  "class_of classes obj = Some class_id \<Longrightarrow>
   \<exists>name. find_text ''name'' obj = Inr name \<and> in_classes classes name
          \<and> the (classes (the name)) = class_id"
  by (auto simp: class_of_def split: sum.splits if_splits)

lemma class_of_NoneD:
  "class_of classes obj = None \<Longrightarrow> unrecognized classes obj \<or> (\<exists>e. find_text ''name'' obj = Inl e)"
  by (auto simp: class_of_def unrecognized_def in_classes_def split: sum.splits if_splits option.splits)

lemma unrecognizedD:
  "unrecognized classes obj \<Longrightarrow>
   \<exists>name. find_text ''name'' obj = Inr name \<and> \<not> in_classes classes name"
  by (auto simp: unrecognized_def split: sum.splits)

lemma class_boxes_Cons:
  "class_boxes classes (obj # objs) =
     (case class_of classes obj of None \<Rightarrow> []
      | Some class_id \<Rightarrow> map (Pair class_id) (iter ''bndbox'' obj))
     @ class_boxes classes objs"
  by (simp add: class_boxes_def)

lemma skipped_messages_Cons:
  "skipped_messages classes xml (obj # objs) =
     (if unrecognized classes obj
      then [wrong_class_message (case find_text ''name'' obj of Inr name \<Rightarrow> name) xml]
      else [])
     @ skipped_messages classes xml objs"
  by (auto simp: skipped_messages_def unrecognized_def split: sum.splits)

lemma list_all2_Pair:
  "list_all2 (\<lambda>(c, box) l. P c box l) (map (Pair class_id) boxes) ls
   = list_all2 (\<lambda>box l. P class_id box l) boxes ls"
  by (simp add: list_all2_map1)

lemma object_loop_lines:
  assumes "list_all (\<lambda>obj. unrecognized classes obj \<or> class_of classes obj \<noteq> None) objs"
    and "list_all2 (\<lambda>(class_id, box) l. bndbox_line class_id iw ih box = Inr l)
           (class_boxes classes objs) ls"
  shows "object_loop classes xml iw ih objs (d, out)
         = (Inr (d @ concat ls), out @ skipped_messages classes xml objs)"
  using assms
proof (induction objs arbitrary: d out ls)
  case Nil
  then show ?case by (simp add: class_boxes_def skipped_messages_def)
next
  case (Cons obj objs)
  from Cons.prems(1) have rest: "list_all (\<lambda>obj. unrecognized classes obj \<or> class_of classes obj \<noteq> None) objs"
    by simp
  show ?case
  proof (cases "unrecognized classes obj")
    case True
    then obtain name where n: "find_text ''name'' obj = Inr name" "\<not> in_classes classes name"
      using unrecognizedD by blast
    have "class_boxes classes (obj # objs) = class_boxes classes objs"
      by (simp add: class_boxes_Cons class_of_unrecognized [OF True])
    with Cons.prems(2) have l: "list_all2 (\<lambda>(class_id, box) l. bndbox_line class_id iw ih box = Inr l)
           (class_boxes classes objs) ls" by simp
    from Cons.IH [OF rest l, of d "out @ [wrong_class_message name xml]"] n True
    show ?thesis by (simp add: skipped_messages_Cons)
  next
    case False
    with Cons.prems(1) obtain class_id where c: "class_of classes obj = Some class_id" by auto
    then obtain name where n: "find_text ''name'' obj = Inr name" "in_classes classes name"
      "the (classes (the name)) = class_id" using class_of_SomeD by blast
    have cb: "class_boxes classes (obj # objs)
              = map (Pair class_id) (iter ''bndbox'' obj) @ class_boxes classes objs"
      by (simp add: class_boxes_Cons c)
    from Cons.prems(2) obtain ls1 ls2 where ls: "ls = ls1 @ ls2"
      and l1: "list_all2 (\<lambda>(class_id, box) l. bndbox_line class_id iw ih box = Inr l)
                 (map (Pair class_id) (iter ''bndbox'' obj)) ls1"
      and l2: "list_all2 (\<lambda>(class_id, box) l. bndbox_line class_id iw ih box = Inr l)
                 (class_boxes classes objs) ls2"
      unfolding cb by (auto simp: list_all2_append1)
    from l1 have "list_all2 (\<lambda>box l. bndbox_line class_id iw ih box = Inr l) (iter ''bndbox'' obj) ls1"
      by (simp add: list_all2_map1)
    then have b: "bndbox_loop class_id iw ih (iter ''bndbox'' obj) d = Inr (d @ concat ls1)"
      by (rule bndbox_loop_lines)
    from Cons.IH [OF rest l2, of "d @ concat ls1" out] n b False
    show ?thesis by (simp add: skipped_messages_Cons ls)
  qed
qed

lemma object_loop_success:
  "object_loop classes xml iw ih objs (d, out) = (Inr data, out') \<Longrightarrow>
   list_all (\<lambda>obj. unrecognized classes obj \<or> class_of classes obj \<noteq> None) objs
   \<and> (\<exists>ls. list_all2 (\<lambda>(class_id, box) l. bndbox_line class_id iw ih box = Inr l)
              (class_boxes classes objs) ls
           \<and> data = d @ concat ls)"
proof (induction objs arbitrary: d out)
  case Nil
  then show ?case by (simp add: class_boxes_def)
next
  case (Cons obj objs)
  show ?case
  proof (cases "find_text ''name'' obj")
    case (Inl e)
    with Cons.prems show ?thesis by simp
  next
    case (Inr name)
    show ?thesis
    proof (cases "in_classes classes name")
      case False
      with Inr have u: "unrecognized classes obj" by (simp add: unrecognized_def)
      from False Inr Cons.prems have
        "object_loop classes xml iw ih objs (d, out @ [wrong_class_message name xml]) = (Inr data, out')"
        by simp
      from Cons.IH [OF this] u show ?thesis
        by (simp add: class_boxes_Cons class_of_unrecognized)
    next
      case True
      then have c: "class_of classes obj = Some (the (classes (the name)))"
        using Inr by (auto simp: class_of_def in_classes_def split: option.splits)
      from True Inr Cons.prems obtain d' where
        b: "bndbox_loop (the (classes (the name))) iw ih (iter ''bndbox'' obj) d = Inr d'"
        and r: "object_loop classes xml iw ih objs (d', out) = (Inr data, out')"
        by (auto simp: Let_def split: sum.splits)
      from bndbox_loop_success [OF b] obtain ls1 where
        l1: "list_all2 (\<lambda>box l. bndbox_line (the (classes (the name))) iw ih box = Inr l)
               (iter ''bndbox'' obj) ls1" and d': "d' = d @ concat ls1" by blast
      from Cons.IH [OF r] obtain ls2 where
        a: "list_all (\<lambda>obj. unrecognized classes obj \<or> class_of classes obj \<noteq> None) objs"
        and l2: "list_all2 (\<lambda>(class_id, box) l. bndbox_line class_id iw ih box = Inr l)
                   (class_boxes classes objs) ls2"
        and data: "data = d' @ concat ls2" by blast
      have "list_all2 (\<lambda>(class_id, box) l. bndbox_line class_id iw ih box = Inr l)
              (class_boxes classes (obj # objs)) (ls1 @ ls2)"
        unfolding class_boxes_Cons c using l1 l2
        by (simp add: list_all2_appendI list_all2_map1)
      moreover have "data = d @ concat (ls1 @ ls2)" by (simp add: data d')
      ultimately show ?thesis using a c by auto
    qed
  qed
qed

lemma lines_nonempty:
  "list_all2 (\<lambda>(class_id, box) l. bndbox_line class_id iw ih box = Inr l) bs ls \<Longrightarrow>
   (concat ls = []) = (bs = [])"
proof (cases ls)
  case Nil
  assume "list_all2 (\<lambda>(class_id, box) l. bndbox_line class_id iw ih box = Inr l) bs ls"
  with Nil show ?thesis by simp
next
  case (Cons l ls')
  assume a: "list_all2 (\<lambda>(class_id, box) l. bndbox_line class_id iw ih box = Inr l) bs ls"
  with Cons obtain b bs' where bs: "bs = b # bs'"
    and l: "(case b of (class_id, box) \<Rightarrow> bndbox_line class_id iw ih box = Inr l)"
    by (auto simp: list_all2_Cons2)
  from l have "l \<noteq> []" by (cases b) (auto dest: bndbox_line_nonempty)
  with Cons bs show ?thesis by simp
qed

section \<open>Properties of the converter: a file that converts\<close>

lemma convert_lines:
  assumes s: "splitext xml = (stem, ''.xml'')" "stem \<noteq> []"
    and p: "parse w xml = Inr doc" "tag doc = ''annotation''"
    and z: "size_loop (iter ''size'' doc) (None, None) = Inr (Some iw, Some ih)" "0 < iw" "0 < ih"
    and n: "list_all (\<lambda>obj. unrecognized classes obj \<or> class_of classes obj \<noteq> None)
              (iter ''object'' doc)"
    and l: "list_all2 (\<lambda>(class_id, box) l. bndbox_line class_id iw ih box = Inr l)
              (class_boxes classes (iter ''object'' doc)) ls"
  shows "convert classes xml w =
           (if class_boxes classes (iter ''object'' doc) = []
            then (Inr False,
                  w\<lparr>printed := printed w @ skipped_messages classes xml (iter ''object'' doc)
                                @ [''----- object is empty: '' @ xml]\<rparr>)
            else (Inr True,
                  w\<lparr>printed := printed w @ skipped_messages classes xml (iter ''object'' doc),
                    files := (files w)(stem @ ''.txt'' \<mapsto> Raw (concat ls))\<rparr>))"
proof -
  have t: "convert_tree classes xml doc
           = (Inr (concat ls), skipped_messages classes xml (iter ''object'' doc))"
    using object_loop_lines [OF n l, of xml "[]" "[]"] p(2) z
    by (simp add: convert_tree_def assert_positive_def)
  have e: "(concat ls = []) = (class_boxes classes (iter ''object'' doc) = [])"
    using l by (rule lines_nonempty)
  show ?thesis
    by (simp add: convert_def s p(1) t e print_def del: concat_eq_Nil_conv)
qed

lemma convert_success:
  assumes "convert classes xml w = (Inr b, w')"
  shows "\<exists>stem doc iw ih ls.
           splitext xml = (stem, ''.xml'') \<and> stem \<noteq> [] \<and> parse w xml = Inr doc
           \<and> tag doc = ''annotation''
           \<and> size_loop (iter ''size'' doc) (None, None) = Inr (Some iw, Some ih)
           \<and> 0 < iw \<and> 0 < ih
           \<and> list_all (\<lambda>obj. unrecognized classes obj \<or> class_of classes obj \<noteq> None)
                (iter ''object'' doc)
           \<and> list_all2 (\<lambda>(class_id, box) l. bndbox_line class_id iw ih box = Inr l)
                (class_boxes classes (iter ''object'' doc)) ls"
proof -
  obtain stem ext where se: "splitext xml = (stem, ext)" by (cases "splitext xml")
  from assms se have ext: "ext = ''.xml''" and stem: "stem \<noteq> []"
    by (auto simp: convert_def split: if_splits)
  from assms se ext stem obtain doc where doc: "parse w xml = Inr doc"
    by (cases "parse w xml") (auto simp: convert_def)
  from assms se ext stem doc obtain data out where
    t: "convert_tree classes xml doc = (Inr data, out)"
    by (cases "convert_tree classes xml doc")
       (auto simp: convert_def split: sum.splits if_splits)
  from t have tag: "tag doc = ''annotation''"
    by (auto simp: convert_tree_def split: if_splits)
  from t tag obtain a b where sz: "size_loop (iter ''size'' doc) (None, None) = Inr (a, b)"
    by (cases "size_loop (iter ''size'' doc) (None, None)") (auto simp: convert_tree_def)
  from t tag sz obtain iw where iw: "assert_positive a = Inr iw"
    by (cases "assert_positive a") (auto simp: convert_tree_def)
  from t tag sz iw obtain ih where ih: "assert_positive b = Inr ih"
    by (cases "assert_positive b") (auto simp: convert_tree_def)
  from iw have a: "a = Some iw" "0 < iw"
    by (auto simp: assert_positive_def split: option.splits if_splits)
  from ih have b: "b = Some ih" "0 < ih"
    by (auto simp: assert_positive_def split: option.splits if_splits)
  from t tag sz iw ih have
    "object_loop classes xml iw ih (iter ''object'' doc) ([], []) = (Inr data, out)"
    by (simp add: convert_tree_def)
  from object_loop_success [OF this] obtain ls where
    "list_all (\<lambda>obj. unrecognized classes obj \<or> class_of classes obj \<noteq> None) (iter ''object'' doc)"
    "list_all2 (\<lambda>(class_id, box) l. bndbox_line class_id iw ih box = Inr l)
       (class_boxes classes (iter ''object'' doc)) ls" by blast
  with se ext stem doc tag sz a b show ?thesis by blast
qed

lemma skipped_messages_text:
  "skipped_messages classes xml objs =
     map (\<lambda>obj. ''***** '' @ [CHR 0x22]
                 @ (case find_text ''name'' obj of Inr (Some name) \<Rightarrow> name | _ \<Rightarrow> ''None'')
                 @ [CHR 0x22, CHR 0x22] @ '' is wrong class in '' @ xml)
       (filter (unrecognized classes) objs)"
  unfolding skipped_messages_def
  by (rule map_cong)
     (auto simp: unrecognized_def wrong_class_message_def format_text_def
       split: sum.splits option.splits)

lemma class_boxes_Nil: "class_boxes classes [] = []"
  by (simp add: class_boxes_def)

lemma class_boxes_filter:
  "class_boxes classes (filter (\<lambda>obj. \<not> unrecognized classes obj) objs) = class_boxes classes objs"
  by (induction objs) (simp_all add: class_boxes_Nil class_boxes_Cons class_of_unrecognized)

lemma class_boxes_all_unrecognized:
  "list_all (unrecognized classes) objs \<Longrightarrow> class_boxes classes objs = []"
  by (induction objs) (simp_all add: class_boxes_Nil class_boxes_Cons class_of_unrecognized)

text \<open>The documents of the scenarios.\<close>

lemma splitext_a: "splitext ''/d/a.xml'' = (''/d/a'', ''.xml'')"
  by (simp add: splitext_def path_tail_def)

lemma find_int_leaf:
  "find_int ''depth'' (size_node ''100'' ''100'' ''3'') = Inr 3"
  "find_int ''width'' (size_node ''100'' ''100'' ''3'') = Inr 100"
  "find_int ''height'' (size_node ''100'' ''100'' ''3'') = Inr 100"
  by (simp_all add: find_int_def find_text_def find_child_def size_node_def
      leaf_def bind_def py_int_def strip_def isspace_def int_literal_def is_digit_def
      digit_val_def)

lemma size_loop_100: "size_loop [size_node ''100'' ''100'' ''3''] (None, None) = Inr (Some 100, Some 100)"
  by (simp add: find_int_leaf bind_Inr)

lemma iter_size: "iter ''size'' (annotation (size_node w h d # map (\<lambda>(n, bs). object_node n bs) objs))
    = size_node w h d # concat (map (\<lambda>(n, bs). iter ''size'' (object_node n bs)) objs)"
  by (simp add: annotation_def size_node_def leaf_def comp_def case_prod_unfold)

lemma bird_cat_objects:
  "iter ''object'' bird_cat_doc
   = [object_node ''bird'' [bndbox_node ''1'' ''2'' ''3'' ''4''], object_node ''cat'' [scenario_box]]"
  "iter ''size'' bird_cat_doc = [size_node ''100'' ''100'' ''3'']"
  "tag bird_cat_doc = ''annotation''"
  by (simp_all add: bird_cat_doc_def annotation_def size_node_def object_node_def leaf_def
      bndbox_node_def scenario_box_def)

lemma bird_objects:
  "iter ''object'' bird_doc = [object_node ''bird'' [bndbox_node ''1'' ''2'' ''3'' ''4'']]"
  "iter ''size'' bird_doc = [size_node ''100'' ''100'' ''3'']"
  "tag bird_doc = ''annotation''"
  by (simp_all add: bird_doc_def annotation_def size_node_def object_node_def leaf_def
      bndbox_node_def)

lemma class_of_node:
  "class_of cat_dog (object_node ''cat'' boxes) = Some 0"
  "class_of cat_dog (object_node ''bird'' boxes) = None"
  "unrecognized cat_dog (object_node ''bird'' boxes)"
  "\<not> unrecognized cat_dog (object_node ''cat'' boxes)"
  by (simp_all add: class_of_def unrecognized_def find_text_def find_child_def object_node_def
      leaf_def in_classes_def cat_dog_def)

lemma iter_bndbox_node:
  "iter ''bndbox'' (object_node name boxes) = concat (map (iter ''bndbox'') boxes)"
  "iter ''bndbox'' (bndbox_node a b c d) = [bndbox_node a b c d]"
  by (simp_all add: object_node_def leaf_def bndbox_node_def)

lemma find_name_node: "find_text ''name'' (object_node name boxes) = Inr (Some name)"
  by (simp add: find_text_def find_child_def object_node_def leaf_def)

lemma parse_one_file: "parse (one_file_world ''/d/a.xml'' ''/d/a.jpg'' doc) ''/d/a.xml'' = Inr doc"
  by (simp add: parse_def one_file_world_def)

lemma scenario_line_text: "bndbox_line 0 100 100 scenario_box = Inr scenario_text"
  by (simp add: scenario_box_def scenario_text_def scenario_line)

subsection \<open>Objects of unknown class\<close>

text \<open>
  Claim C6. Take an annotation file that \<open>convert\<close> reads to the end: the path ends in
  \<open>.xml\<close>, the document has the root \<open>annotation\<close>, its \<open>size\<close> nodes give a positive
  width and height, every object has a \<open>name\<close> node, and every box of an object of a known
  class gives a line. Then \<open>convert\<close> prints, for each object whose class name is no key of
  the class map and in document order, the message that carries the name, and skips only
  these objects: the lines written are those of all the boxes of the objects of a known
  class, which are the boxes of the file without the skipped objects. The result is
  \<open>True\<close> exactly when there is such a box; otherwise the message of the empty file is
  printed and no file is written. In particular, when every object is of an unknown class,
  \<open>convert\<close> returns \<open>False\<close> and writes no text file.
\<close>

theorem unknown_class_is_skipped:
  assumes "splitext xml = (stem, ''.xml'')" "stem \<noteq> []"
    and "parse w xml = Inr doc" "tag doc = ''annotation''"
    and "size_loop (iter ''size'' doc) (None, None) = Inr (Some iw, Some ih)" "0 < iw" "0 < ih"
    and "list_all (\<lambda>obj. unrecognized classes obj \<or> class_of classes obj \<noteq> None)
           (iter ''object'' doc)"
    and "list_all2 (\<lambda>(class_id, box) l. bndbox_line class_id iw ih box = Inr l)
           (class_boxes classes (iter ''object'' doc)) ls"
  shows "convert classes xml w =
           (Inr (class_boxes classes (iter ''object'' doc) \<noteq> []),
            w\<lparr>printed := printed w
                  @ map (\<lambda>obj. ''***** '' @ [CHR 0x22]
                              @ (case find_text ''name'' obj of
                                   Inr (Some name) \<Rightarrow> name | _ \<Rightarrow> ''None'')
                              @ [CHR 0x22, CHR 0x22] @ '' is wrong class in '' @ xml)
                      (filter (unrecognized classes) (iter ''object'' doc))
                  @ (if class_boxes classes (iter ''object'' doc) = []
                     then [''----- object is empty: '' @ xml] else []),
              files := (if class_boxes classes (iter ''object'' doc) = [] then files w
                        else (files w)(stem @ ''.txt'' \<mapsto> Raw (concat ls)))\<rparr>)
         \<and> class_boxes classes (iter ''object'' doc)
             = class_boxes classes
                 (filter (\<lambda>obj. \<not> unrecognized classes obj) (iter ''object'' doc))
         \<and> (list_all (unrecognized classes) (iter ''object'' doc) \<longrightarrow>
              fst (convert classes xml w) = Inr False
              \<and> files (snd (convert classes xml w)) = files w)"
proof -
  note c = convert_lines [OF assms]
  have a: "convert classes xml w =
           (Inr (class_boxes classes (iter ''object'' doc) \<noteq> []),
            w\<lparr>printed := printed w
                  @ map (\<lambda>obj. ''***** '' @ [CHR 0x22]
                              @ (case find_text ''name'' obj of
                                   Inr (Some name) \<Rightarrow> name | _ \<Rightarrow> ''None'')
                              @ [CHR 0x22, CHR 0x22] @ '' is wrong class in '' @ xml)
                      (filter (unrecognized classes) (iter ''object'' doc))
                  @ (if class_boxes classes (iter ''object'' doc) = []
                     then [''----- object is empty: '' @ xml] else []),
              files := (if class_boxes classes (iter ''object'' doc) = [] then files w
                        else (files w)(stem @ ''.txt'' \<mapsto> Raw (concat ls)))\<rparr>)"
    unfolding c skipped_messages_text by (cases "class_boxes classes (iter ''object'' doc) = []") simp_all
  have b: "class_boxes classes (iter ''object'' doc)
           = class_boxes classes
               (filter (\<lambda>obj. \<not> unrecognized classes obj) (iter ''object'' doc))"
    by (rule class_boxes_filter [symmetric])
  have "fst (convert classes xml w) = Inr False \<and> files (snd (convert classes xml w)) = files w"
    if "list_all (unrecognized classes) (iter ''object'' doc)"
    using class_boxes_all_unrecognized [OF that] unfolding c by simp
  with a b show ?thesis by blast
qed

theorem unknown_class_is_skipped_witness:
  "convert cat_dog ''/d/a.xml'' (one_file_world ''/d/a.xml'' ''/d/a.jpg'' bird_cat_doc)
     = (Inr True,
        (one_file_world ''/d/a.xml'' ''/d/a.jpg'' bird_cat_doc)
          \<lparr>printed := [bird_message],
            files := (files (one_file_world ''/d/a.xml'' ''/d/a.jpg'' bird_cat_doc))
                       (''/d/a.txt'' \<mapsto> Raw scenario_text)\<rparr>)
   \<and> list_all (unrecognized cat_dog) (iter ''object'' bird_doc)
   \<and> convert cat_dog ''/d/a.xml'' (one_file_world ''/d/a.xml'' ''/d/a.jpg'' bird_doc)
     = (Inr False,
        (one_file_world ''/d/a.xml'' ''/d/a.jpg'' bird_doc)
          \<lparr>printed := [bird_message, ''----- object is empty: /d/a.xml'']\<rparr>)"
proof -
  have n1: "list_all (\<lambda>obj. unrecognized cat_dog obj \<or> class_of cat_dog obj \<noteq> None)
              (iter ''object'' bird_cat_doc)"
    by (simp add: bird_cat_objects class_of_node)
  have b1: "class_boxes cat_dog (iter ''object'' bird_cat_doc) = [(0, scenario_box)]"
    by (simp add: bird_cat_objects class_boxes_def class_of_node iter_bndbox_node scenario_box_def)
  have l1: "list_all2 (\<lambda>(class_id, box) l. bndbox_line class_id 100 100 box = Inr l)
              (class_boxes cat_dog (iter ''object'' bird_cat_doc)) [scenario_text]"
    by (simp add: b1 scenario_line_text)
  have z1: "size_loop (iter ''size'' bird_cat_doc) (None, None) = Inr (Some 100, Some 100)"
    by (simp only: bird_cat_objects size_loop_100)
  have n2: "list_all (\<lambda>obj. unrecognized cat_dog obj \<or> class_of cat_dog obj \<noteq> None)
              (iter ''object'' bird_doc)"
    by (simp add: bird_objects class_of_node)
  have u2: "list_all (unrecognized cat_dog) (iter ''object'' bird_doc)"
    by (simp add: bird_objects class_of_node)
  have b2: "class_boxes cat_dog (iter ''object'' bird_doc) = []"
    by (simp add: bird_objects class_boxes_def class_of_node)
  have l2: "list_all2 (\<lambda>(class_id, box) l. bndbox_line class_id 100 100 box = Inr l)
              (class_boxes cat_dog (iter ''object'' bird_doc)) []"
    by (simp add: b2)
  have z2: "size_loop (iter ''size'' bird_doc) (None, None) = Inr (Some 100, Some 100)"
    by (simp only: bird_objects size_loop_100)
  have s: "''/d/a'' \<noteq> []" "(0::int) < 100" by simp_all
  have e1: "printed (one_file_world ''/d/a.xml'' ''/d/a.jpg'' bird_cat_doc) = []"
    and e2: "printed (one_file_world ''/d/a.xml'' ''/d/a.jpg'' bird_doc) = []"
    by (simp_all add: one_file_world_def)
  from unknown_class_is_skipped [OF splitext_a s(1) parse_one_file bird_cat_objects(3) z1 s(2) s(2) n1 l1, THEN conjunct1]
  have r1: "convert cat_dog ''/d/a.xml'' (one_file_world ''/d/a.xml'' ''/d/a.jpg'' bird_cat_doc)
     = (Inr True,
        (one_file_world ''/d/a.xml'' ''/d/a.jpg'' bird_cat_doc)
          \<lparr>printed := [bird_message],
            files := (files (one_file_world ''/d/a.xml'' ''/d/a.jpg'' bird_cat_doc))
                       (''/d/a.txt'' \<mapsto> Raw scenario_text)\<rparr>)"
    by (simp add: b1 b1 [unfolded bird_cat_objects] e1 bird_cat_objects class_of_node find_name_node bird_message_def)
  from unknown_class_is_skipped [OF splitext_a s(1) parse_one_file bird_objects(3) z2 s(2) s(2) n2 l2, THEN conjunct1]
  have r2: "convert cat_dog ''/d/a.xml'' (one_file_world ''/d/a.xml'' ''/d/a.jpg'' bird_doc)
     = (Inr False,
        (one_file_world ''/d/a.xml'' ''/d/a.jpg'' bird_doc)
          \<lparr>printed := [bird_message, ''----- object is empty: /d/a.xml'']\<rparr>)"
    by (simp add: b2 b2 [unfolded bird_objects] e2 bird_objects class_of_node find_name_node bird_message_def)
  from r1 u2 r2 show ?thesis by blast
qed

subsection \<open>One line for each box\<close>

lemma cat_objects:
  "iter ''object'' cat_doc = [object_node ''cat'' [scenario_box]]"
  "iter ''size'' cat_doc = [size_node ''100'' ''100'' ''3'']"
  "tag cat_doc = ''annotation''"
  by (simp_all add: cat_doc_def annotation_def size_node_def object_node_def leaf_def
      bndbox_node_def scenario_box_def)

lemma two_boxes_objects:
  "iter ''object'' two_boxes_doc = [object_node ''cat'' [scenario_box, scenario_box]]"
  "iter ''size'' two_boxes_doc = [size_node ''100'' ''100'' ''3'']"
  "tag two_boxes_doc = ''annotation''"
  by (simp_all add: two_boxes_doc_def annotation_def size_node_def object_node_def leaf_def
      bndbox_node_def scenario_box_def)

lemma no_box_objects:
  "iter ''object'' no_box_doc = [object_node ''cat'' []]"
  "iter ''size'' no_box_doc = [size_node ''100'' ''100'' ''3'']"
  "tag no_box_doc = ''annotation''"
  by (simp_all add: no_box_doc_def annotation_def size_node_def object_node_def leaf_def)

lemma iter_scenario_box: "iter ''bndbox'' scenario_box = [scenario_box]"
  by (simp add: scenario_box_def iter_bndbox_node)

lemma one_file_world_sel:
  "printed (one_file_world xml jpg doc) = []"
  "files (one_file_world xml jpg doc) = [xml \<mapsto> Document doc, jpg \<mapsto> Raw ''JFIF'']"
  by (simp_all add: one_file_world_def)

lemma class_boxes_one_each:
  "list_all (\<lambda>obj. class_of classes obj \<noteq> None \<longrightarrow> length (iter ''bndbox'' obj) = 1) objs \<Longrightarrow>
   length (class_boxes classes objs) = length (filter (\<lambda>obj. class_of classes obj \<noteq> None) objs)"
  by (induction objs) (auto simp: class_boxes_Nil class_boxes_Cons)

text \<open>
  Claim C5, as stated, fails: an object of a known class need not hold a box. The file
  with one \<open>cat\<close> that has no \<open>bndbox\<close> node has one recognized object, and \<open>convert\<close>
  returns \<open>False\<close>, prints that the file is empty and writes no text file.
\<close>

theorem recognized_object_without_box:
  "length (filter (\<lambda>obj. class_of cat_dog obj \<noteq> None) (iter ''object'' no_box_doc)) = 1
   \<and> convert cat_dog ''/d/a.xml'' (one_file_world ''/d/a.xml'' ''/d/a.jpg'' no_box_doc)
     = (Inr False,
        (one_file_world ''/d/a.xml'' ''/d/a.jpg'' no_box_doc)
          \<lparr>printed := [''----- object is empty: /d/a.xml'']\<rparr>)"
proof -
  have n: "list_all (\<lambda>obj. unrecognized cat_dog obj \<or> class_of cat_dog obj \<noteq> None)
             (iter ''object'' no_box_doc)"
    by (simp add: no_box_objects class_of_node)
  have b: "class_boxes cat_dog (iter ''object'' no_box_doc) = []"
    by (simp add: no_box_objects class_boxes_def class_of_node iter_bndbox_node)
  have l: "list_all2 (\<lambda>(class_id, box) l. bndbox_line class_id 100 100 box = Inr l)
             (class_boxes cat_dog (iter ''object'' no_box_doc)) []"
    by (simp add: b)
  have z: "size_loop (iter ''size'' no_box_doc) (None, None) = Inr (Some 100, Some 100)"
    by (simp only: no_box_objects size_loop_100)
  have s: "''/d/a'' \<noteq> []" "(0::int) < 100" by simp_all
  have m: "skipped_messages cat_dog ''/d/a.xml'' (iter ''object'' no_box_doc) = []"
    by (simp add: skipped_messages_def no_box_objects class_of_node)
  from convert_lines [OF splitext_a s(1) parse_one_file no_box_objects(3) z s(2) s(2) n l]
  have "convert cat_dog ''/d/a.xml'' (one_file_world ''/d/a.xml'' ''/d/a.jpg'' no_box_doc)
     = (Inr False,
        (one_file_world ''/d/a.xml'' ''/d/a.jpg'' no_box_doc)
          \<lparr>printed := [''----- object is empty: /d/a.xml'']\<rparr>)"
    by (simp add: b m one_file_world_sel)
  moreover have
    "length (filter (\<lambda>obj. class_of cat_dog obj \<noteq> None) (iter ''object'' no_box_doc)) = 1"
    by (simp add: no_box_objects class_of_node)
  ultimately show ?thesis by blast
qed

text \<open>
  Claim C5, amended. When \<open>convert\<close> returns without an exception, it has made one line
  for each \<open>bndbox\<close> node of each object of a known class, in document order: as many
  lines as there are recognized objects when each of them holds exactly one box. It returns
  \<open>True\<close> exactly when there is such a box, and has then written these lines, and nothing
  else, to the text file beside the annotation file; when there is none (no recognized
  object, or none with a box) it returns \<open>False\<close> and leaves all files as they were.
\<close>

theorem convert_writes_one_line_per_box:
  assumes "convert classes xml w = (Inr b, w')" and "parse w xml = Inr doc"
  shows "b = (class_boxes classes (iter ''object'' doc) \<noteq> [])
         \<and> (\<exists>iw ih ls.
               size_loop (iter ''size'' doc) (None, None) = Inr (Some iw, Some ih)
               \<and> list_all2 (\<lambda>(class_id, box) l. bndbox_line class_id iw ih box = Inr l)
                   (class_boxes classes (iter ''object'' doc)) ls
               \<and> files w' = (if b then (files w)(fst (splitext xml) @ ''.txt'' \<mapsto> Raw (concat ls))
                             else files w))
         \<and> (list_all (\<lambda>obj. class_of classes obj \<noteq> None \<longrightarrow> length (iter ''bndbox'' obj) = 1)
               (iter ''object'' doc) \<longrightarrow>
             length (class_boxes classes (iter ''object'' doc))
             = length (filter (\<lambda>obj. class_of classes obj \<noteq> None) (iter ''object'' doc)))"
proof -
  from convert_success [OF assms(1)] assms(2) obtain stem iw ih ls where
    s: "splitext xml = (stem, ''.xml'')" "stem \<noteq> []"
    and p: "tag doc = ''annotation''"
    and z: "size_loop (iter ''size'' doc) (None, None) = Inr (Some iw, Some ih)" "0 < iw" "0 < ih"
    and n: "list_all (\<lambda>obj. unrecognized classes obj \<or> class_of classes obj \<noteq> None)
              (iter ''object'' doc)"
    and l: "list_all2 (\<lambda>(class_id, box) l. bndbox_line class_id iw ih box = Inr l)
              (class_boxes classes (iter ''object'' doc)) ls"
    by auto
  note c = convert_lines [OF s assms(2) p z n l, of]
  from c assms(1) have b: "b = (class_boxes classes (iter ''object'' doc) \<noteq> [])"
    by (auto split: if_splits)
  from c assms(1) have f:
    "files w' = (if b then (files w)(fst (splitext xml) @ ''.txt'' \<mapsto> Raw (concat ls))
                 else files w)"
    by (auto simp: s split: if_splits)
  from z(1) l f have "\<exists>iw ih ls.
               size_loop (iter ''size'' doc) (None, None) = Inr (Some iw, Some ih)
               \<and> list_all2 (\<lambda>(class_id, box) l. bndbox_line class_id iw ih box = Inr l)
                   (class_boxes classes (iter ''object'' doc)) ls
               \<and> files w' = (if b then (files w)(fst (splitext xml) @ ''.txt'' \<mapsto> Raw (concat ls))
                             else files w)" by blast
  with b class_boxes_one_each [of classes "iter ''object'' doc"] show ?thesis by blast
qed

theorem convert_writes_one_line_per_box_witness:
  "convert cat_dog ''/d/a.xml'' (one_file_world ''/d/a.xml'' ''/d/a.jpg'' two_boxes_doc)
     = (Inr True,
        (one_file_world ''/d/a.xml'' ''/d/a.jpg'' two_boxes_doc)
          \<lparr>files := (files (one_file_world ''/d/a.xml'' ''/d/a.jpg'' two_boxes_doc))
                       (''/d/a.txt'' \<mapsto> Raw (scenario_text @ scenario_text))\<rparr>)
   \<and> class_boxes cat_dog (iter ''object'' two_boxes_doc) = [(0, scenario_box), (0, scenario_box)]
   \<and> length (filter (\<lambda>obj. class_of cat_dog obj \<noteq> None) (iter ''object'' two_boxes_doc)) = 1
   \<and> convert cat_dog ''/d/a.xml'' (one_file_world ''/d/a.xml'' ''/d/a.jpg'' cat_doc)
     = (Inr True,
        (one_file_world ''/d/a.xml'' ''/d/a.jpg'' cat_doc)
          \<lparr>files := (files (one_file_world ''/d/a.xml'' ''/d/a.jpg'' cat_doc))
                       (''/d/a.txt'' \<mapsto> Raw scenario_text)\<rparr>)
   \<and> list_all (\<lambda>obj. class_of cat_dog obj \<noteq> None \<longrightarrow> length (iter ''bndbox'' obj) = 1)
        (iter ''object'' cat_doc)
   \<and> length (class_boxes cat_dog (iter ''object'' cat_doc)) = 1"
proof -
  have s: "''/d/a'' \<noteq> []" "(0::int) < 100" by simp_all
  have n2: "list_all (\<lambda>obj. unrecognized cat_dog obj \<or> class_of cat_dog obj \<noteq> None)
              (iter ''object'' two_boxes_doc)"
    by (simp add: two_boxes_objects class_of_node)
  have b2: "class_boxes cat_dog (iter ''object'' two_boxes_doc)
            = [(0, scenario_box), (0, scenario_box)]"
    by (simp add: two_boxes_objects class_boxes_def class_of_node iter_bndbox_node
        iter_scenario_box)
  have l2: "list_all2 (\<lambda>(class_id, box) l. bndbox_line class_id 100 100 box = Inr l)
              (class_boxes cat_dog (iter ''object'' two_boxes_doc)) [scenario_text, scenario_text]"
    by (simp add: b2 scenario_line_text)
  have z2: "size_loop (iter ''size'' two_boxes_doc) (None, None) = Inr (Some 100, Some 100)"
    by (simp only: two_boxes_objects size_loop_100)
  have m2: "skipped_messages cat_dog ''/d/a.xml'' (iter ''object'' two_boxes_doc) = []"
    by (simp add: skipped_messages_def two_boxes_objects class_of_node)
  from convert_lines [OF splitext_a s(1) parse_one_file two_boxes_objects(3) z2 s(2) s(2) n2 l2]
  have c2: "convert cat_dog ''/d/a.xml'' (one_file_world ''/d/a.xml'' ''/d/a.jpg'' two_boxes_doc)
     = (Inr True,
        (one_file_world ''/d/a.xml'' ''/d/a.jpg'' two_boxes_doc)
          \<lparr>files := (files (one_file_world ''/d/a.xml'' ''/d/a.jpg'' two_boxes_doc))
                       (''/d/a.txt'' \<mapsto> Raw (scenario_text @ scenario_text))\<rparr>)"
    by (simp add: b2 m2 one_file_world_def)
  have r2: "length (filter (\<lambda>obj. class_of cat_dog obj \<noteq> None) (iter ''object'' two_boxes_doc)) = 1"
    by (simp add: two_boxes_objects class_of_node)
  have n1: "list_all (\<lambda>obj. unrecognized cat_dog obj \<or> class_of cat_dog obj \<noteq> None)
              (iter ''object'' cat_doc)"
    by (simp add: cat_objects class_of_node)
  have b1: "class_boxes cat_dog (iter ''object'' cat_doc) = [(0, scenario_box)]"
    by (simp add: cat_objects class_boxes_def class_of_node iter_bndbox_node iter_scenario_box)
  have l1: "list_all2 (\<lambda>(class_id, box) l. bndbox_line class_id 100 100 box = Inr l)
              (class_boxes cat_dog (iter ''object'' cat_doc)) [scenario_text]"
    by (simp add: b1 scenario_line_text)
  have z1: "size_loop (iter ''size'' cat_doc) (None, None) = Inr (Some 100, Some 100)"
    by (simp only: cat_objects size_loop_100)
  have m1: "skipped_messages cat_dog ''/d/a.xml'' (iter ''object'' cat_doc) = []"
    by (simp add: skipped_messages_def cat_objects class_of_node)
  from convert_lines [OF splitext_a s(1) parse_one_file cat_objects(3) z1 s(2) s(2) n1 l1]
  have c1: "convert cat_dog ''/d/a.xml'' (one_file_world ''/d/a.xml'' ''/d/a.jpg'' cat_doc)
     = (Inr True,
        (one_file_world ''/d/a.xml'' ''/d/a.jpg'' cat_doc)
          \<lparr>files := (files (one_file_world ''/d/a.xml'' ''/d/a.jpg'' cat_doc))
                       (''/d/a.txt'' \<mapsto> Raw scenario_text)\<rparr>)"
    by (simp add: b1 m1 one_file_world_def)
  have o1: "list_all (\<lambda>obj. class_of cat_dog obj \<noteq> None \<longrightarrow> length (iter ''bndbox'' obj) = 1)
        (iter ''object'' cat_doc)"
    by (simp add: cat_objects iter_bndbox_node iter_scenario_box)
  from convert_writes_one_line_per_box [OF c1 parse_one_file] o1
  have "length (class_boxes cat_dog (iter ''object'' cat_doc))
        = length (filter (\<lambda>obj. class_of cat_dog obj \<noteq> None) (iter ''object'' cat_doc))"
    by blast
  then have k1: "length (class_boxes cat_dog (iter ''object'' cat_doc)) = 1"
    by (simp add: cat_objects class_of_node)
  from c2 b2 r2 c1 o1 k1 show ?thesis by blast
qed



subsection \<open>The numbers of a line\<close>

lemma coordinate_find_int: "find_int t box = Inr v \<Longrightarrow> 0 < v \<Longrightarrow> coordinate t box = Inr v"
  by (simp add: coordinate_def bind_Inr)

lemma find_int_scenario_box:
  "find_int ''xmin'' scenario_box = Inr 10"
  "find_int ''ymin'' scenario_box = Inr 20"
  "find_int ''xmax'' scenario_box = Inr 50"
  "find_int ''ymax'' scenario_box = Inr 60"
  by (simp_all add: scenario_box_def find_int_def find_text_def find_child_def bndbox_node_def
      leaf_def bind_def py_int_def strip_def isspace_def int_literal_def is_digit_def
      digit_val_def)

text \<open>
  Claim C1. For a box with positive coordinates, \<open>xmin < xmax\<close> and \<open>ymin < ymax\<close>, in an
  image of positive width and height, all numbers below \<open>2^52\<close>, the line of the box is
  the class id followed by four numbers, each after one blank: the text of the float nearest
  to \<open>(xmin + (xmax - xmin) / 2) / image_width\<close>, to
  \<open>(ymin + (ymax - ymin) / 2) / image_height\<close>, to \<open>(xmax - xmin) / image_width\<close> and to
  \<open>(ymax - ymin) / image_height\<close>, then a newline. For a file whose only object is of a
  known class and holds this box alone, \<open>convert\<close> returns \<open>True\<close>, prints nothing and
  writes exactly this line to the text file. For the class \<open>cat\<close> with id 0, the box
  (10, 50, 20, 60) and an image of 100 by 100 the line is \<open>0 0.3 0.4 0.4 0.4\<close>.
\<close>

theorem line_of_a_box:
  assumes "find_int ''xmin'' box = Inr xmin" "find_int ''xmax'' box = Inr xmax"
    and "find_int ''ymin'' box = Inr ymin" "find_int ''ymax'' box = Inr ymax"
    and "0 < xmin" "xmin < xmax" "xmax < 2 ^ 52" "0 < ymin" "ymin < ymax" "ymax < 2 ^ 52"
    and "0 < image_width" "image_width < 2 ^ 52" "0 < image_height" "image_height < 2 ^ 52"
  shows "let line = str_int class_id
                @ '' '' @ float_repr (make_float False
                            ((of_int xmin + of_int (xmax - xmin) / 2) / of_int image_width))
                @ '' '' @ float_repr (make_float False
                            ((of_int ymin + of_int (ymax - ymin) / 2) / of_int image_height))
                @ '' '' @ float_repr (make_float False
                            (of_int (xmax - xmin) / of_int image_width))
                @ '' '' @ float_repr (make_float False
                            (of_int (ymax - ymin) / of_int image_height))
                @ [CHR 0x0A]
         in bndbox_line class_id image_width image_height box = Inr line
            \<and> (splitext xml = (stem, ''.xml'') \<and> stem \<noteq> [] \<and> parse w xml = Inr doc
                 \<and> tag doc = ''annotation''
                 \<and> size_loop (iter ''size'' doc) (None, None)
                     = Inr (Some image_width, Some image_height)
                 \<and> iter ''object'' doc = [obj] \<and> class_of classes obj = Some class_id
                 \<and> iter ''bndbox'' obj = [box]
               \<longrightarrow> convert classes xml w
                   = (Inr True, w\<lparr>files := (files w)(stem @ ''.txt'' \<mapsto> Raw line)\<rparr>))"
proof -
  define line where "line = str_int class_id
                @ '' '' @ float_repr (make_float False
                            ((of_int xmin + of_int (xmax - xmin) / 2) / of_int image_width))
                @ '' '' @ float_repr (make_float False
                            ((of_int ymin + of_int (ymax - ymin) / 2) / of_int image_height))
                @ '' '' @ float_repr (make_float False
                            (of_int (xmax - xmin) / of_int image_width))
                @ '' '' @ float_repr (make_float False
                            (of_int (ymax - ymin) / of_int image_height))
                @ [CHR 0x0A]"
  have xm: "0 < xmax" using assms(5,6) by simp
  have ym: "0 < ymax" using assms(8,9) by simp
  have l: "bndbox_line class_id image_width image_height box = Inr line"
    unfolding line_def
    by (rule bndbox_line_value
        [OF coordinate_find_int [OF assms(1,5)] coordinate_find_int [OF assms(2) xm]
            coordinate_find_int [OF assms(3,8)] coordinate_find_int [OF assms(4) ym]
            assms(6,9,7,10,11,12,13,14)])
  have "convert classes xml w
        = (Inr True, w\<lparr>files := (files w)(stem @ ''.txt'' \<mapsto> Raw line)\<rparr>)"
    if h: "splitext xml = (stem, ''.xml'')" "stem \<noteq> []" "parse w xml = Inr doc"
      "tag doc = ''annotation''"
      "size_loop (iter ''size'' doc) (None, None) = Inr (Some image_width, Some image_height)"
      and o: "iter ''object'' doc = [obj]" "class_of classes obj = Some class_id"
      "iter ''bndbox'' obj = [box]"
  proof -
    have b: "class_boxes classes (iter ''object'' doc) = [(class_id, box)]"
      by (simp add: o class_boxes_def)
    have n: "list_all (\<lambda>obj. unrecognized classes obj \<or> class_of classes obj \<noteq> None)
               (iter ''object'' doc)"
      by (simp add: o)
    have ls: "list_all2 (\<lambda>(class_id, box) l. bndbox_line class_id image_width image_height box = Inr l)
               (class_boxes classes (iter ''object'' doc)) [line]"
      by (simp add: b l)
    have u: "\<not> unrecognized classes obj"
      using o(2) class_of_unrecognized [of classes obj] by auto
    have m: "skipped_messages classes xml (iter ''object'' doc) = []"
      by (simp add: skipped_messages_def o u)
    from convert_lines [OF h assms(11,13) n ls] show ?thesis
      by (simp add: b m)
  qed
  with l show ?thesis unfolding Let_def line_def [symmetric] by blast
qed

theorem line_of_a_box_witness:
  "bndbox_line 0 100 100 scenario_box = Inr (''0 0.3 0.4 0.4 0.4'' @ [CHR 0x0A])
   \<and> class_of cat_dog (object_node ''cat'' [scenario_box]) = Some 0
   \<and> convert cat_dog ''/d/a.xml'' (one_file_world ''/d/a.xml'' ''/d/a.jpg'' cat_doc)
     = (Inr True,
        \<lparr>files = [''/d/a.xml'' \<mapsto> Document cat_doc, ''/d/a.jpg'' \<mapsto> Raw ''JFIF'',
                  ''/d/a.txt'' \<mapsto> Raw (''0 0.3 0.4 0.4 0.4'' @ [CHR 0x0A])],
         printed = [], draws = 0\<rparr>)"
proof -
  have a: "((of_int 10 + of_int (50 - 10) / 2) / of_int 100 :: rat) = 3 / 10" by simp
  have b: "((of_int 20 + of_int (60 - 20) / 2) / of_int 100 :: rat) = 2 / 5" by simp
  have c: "(of_int (50 - 10) / of_int 100 :: rat) = 2 / 5" by simp
  have d: "(of_int (60 - 20) / of_int 100 :: rat) = 2 / 5" by simp
  have s: "str_int 0 = ''0''" by (simp add: str_int_def digit_char_def)
  have t: "str_int 0 @ '' '' @ float_repr (make_float False (3 / 10))
             @ '' '' @ float_repr (make_float False (2 / 5))
             @ '' '' @ float_repr (make_float False (2 / 5))
             @ '' '' @ float_repr (make_float False (2 / 5)) @ [CHR 0x0A]
           = ''0 0.3 0.4 0.4 0.4'' @ [CHR 0x0A]"
    unfolding s float_repr_0_3 float_repr_0_4 by simp
  have z: "size_loop (iter ''size'' cat_doc) (None, None) = Inr (Some 100, Some 100)"
    by (simp only: cat_objects size_loop_100)
  have k: "class_of cat_dog (object_node ''cat'' [scenario_box]) = Some 0"
    by (rule class_of_node)
  have i: "iter ''bndbox'' (object_node ''cat'' [scenario_box]) = [scenario_box]"
    by (simp add: iter_bndbox_node iter_scenario_box)
  have h: "(0::int) < 10" "(10::int) < 50" "(50::int) < 2 ^ 52" "(0::int) < 20" "(20::int) < 60"
    "(60::int) < 2 ^ 52" "(0::int) < 100" "(100::int) < 2 ^ 52" by simp_all
  note r = line_of_a_box [OF find_int_scenario_box(1,3,2,4) h(1,2,3,4,5,6,7,8,7,8),
      of 0 "''/d/a.xml''" "''/d/a''" "one_file_world ''/d/a.xml'' ''/d/a.jpg'' cat_doc" cat_doc
        "object_node ''cat'' [scenario_box]" cat_dog,
      unfolded Let_def a b c d t]
  from r splitext_a parse_one_file [of cat_doc] cat_objects z k i
  have "bndbox_line 0 100 100 scenario_box = Inr (''0 0.3 0.4 0.4 0.4'' @ [CHR 0x0A])"
    and "convert cat_dog ''/d/a.xml'' (one_file_world ''/d/a.xml'' ''/d/a.jpg'' cat_doc)
     = (Inr True, (one_file_world ''/d/a.xml'' ''/d/a.jpg'' cat_doc)
         \<lparr>files := (files (one_file_world ''/d/a.xml'' ''/d/a.jpg'' cat_doc))
                     (''/d/a'' @ ''.txt'' \<mapsto> Raw (''0 0.3 0.4 0.4 0.4'' @ [CHR 0x0A]))\<rparr>)"
    by simp_all
  with k show ?thesis by (simp add: one_file_world_def)
qed

section \<open>What the converter reads and writes\<close>

lemma endswith_ext:
  "endswith (s @ ''.txt'') ''.txt''"
  "\<not> endswith (s @ ''.xml'') ''.txt''"
  "\<not> endswith (s @ ''.jpg'') ''.txt''"
  by (simp_all add: endswith_def)

lemma takeWhile_dropWhile_mem:
  "x \<in> set xs \<Longrightarrow> \<exists>t. xs = takeWhile (\<lambda>c. c \<noteq> x) xs @ x # t"
proof -
  assume x: "x \<in> set xs"
  have "dropWhile (\<lambda>c. c \<noteq> x) xs \<noteq> []" using x by (auto simp: dropWhile_eq_Nil_conv)
  then obtain y t where d: "dropWhile (\<lambda>c. c \<noteq> x) xs = y # t"
    by (cases "dropWhile (\<lambda>c. c \<noteq> x) xs") auto
  then have "y = x" using hd_dropWhile [of "\<lambda>c. c \<noteq> x" xs] by auto
  with d have "xs = takeWhile (\<lambda>c. c \<noteq> x) xs @ x # t"
    using takeWhile_dropWhile_id [of "\<lambda>c. c \<noteq> x" xs] by simp
  then show ?thesis by blast
qed

lemma path_tail_suffix: "\<exists>u. p = u @ path_tail p"
proof -
  have "rev p = takeWhile (\<lambda>c. c \<noteq> CHR ''/'') (rev p) @ dropWhile (\<lambda>c. c \<noteq> CHR ''/'') (rev p)"
    by simp
  then have "p = rev (dropWhile (\<lambda>c. c \<noteq> CHR ''/'') (rev p)) @ path_tail p"
    unfolding path_tail_def by (metis rev_append rev_rev_ident)
  then show ?thesis by blast
qed

lemma splitext_append: "splitext p = (a, b) \<Longrightarrow> p = a @ b"
proof -
  assume s: "splitext p = (a, b)"
  define name where "name = path_tail p"
  define ext where "ext = rev (takeWhile (\<lambda>c. c \<noteq> CHR ''.'') (rev name))"
  show ?thesis
  proof (cases "CHR ''.'' \<in> set name
      \<and> \<not> list_all (\<lambda>c. c = CHR ''.'') (take (length name - length ext - 1) name)")
    case False
    with s show ?thesis by (auto simp: splitext_def Let_def name_def ext_def)
  next
    case True
    with s have a: "a = take (length p - length ext - 1) p" and b: "b = CHR ''.'' # ext"
      by (auto simp: splitext_def Let_def name_def ext_def)
    from True have "CHR ''.'' \<in> set (rev name)" by simp
    from takeWhile_dropWhile_mem [OF this] obtain t where
      "rev name = rev ext @ CHR ''.'' # t" by (auto simp: ext_def)
    then have "rev (rev name) = rev (rev ext @ CHR ''.'' # t)" by simp
    then have n: "name = rev t @ CHR ''.'' # ext" by simp
    obtain u where u: "p = u @ name" using path_tail_suffix [of p] by (auto simp: name_def)
    define v where "v = u @ rev t"
    with n u have p: "p = v @ CHR ''.'' # ext" by simp
    have "take (length p - length ext - 1) p = v" by (simp add: p)
    with a b p show ?thesis by simp
  qed
qed



lemma same_sources_printed: "same_sources w (w\<lparr>printed := x\<rparr>)" "same_sources w (w\<lparr>draws := y\<rparr>)"
  by (simp_all add: same_sources_def)

lemma same_sources_write: "endswith p ''.txt'' \<Longrightarrow> same_sources w (w\<lparr>files := (files w)(p \<mapsto> c)\<rparr>)"
  by (auto simp: same_sources_def)


lemma convert_reads_sources:
  assumes "same_sources w w'"
  shows "fst (convert classes xml w) = fst (convert classes xml w')"
proof -
  obtain stem ext where s: "splitext xml = (stem, ext)" by (cases "splitext xml")
  show ?thesis
  proof (cases "ext = ''.xml''")
    case False
    with s show ?thesis by (simp add: convert_def)
  next
    case True
    with s have "xml = stem @ ''.xml''" using splitext_append by blast
    then have "\<not> endswith xml ''.txt''" by (simp add: endswith_ext)
    with assms have "files w xml = files w' xml" by (simp add: same_sources_def)
    then have "parse w xml = parse w' xml" by (simp add: parse_def)
    then show ?thesis
      by (auto simp: convert_def s Let_def split: prod.splits sum.splits)
  qed
qed

lemma jpg_same_sources:
  "same_sources w w' \<Longrightarrow> path_exists w (s @ ''.jpg'') = path_exists w' (s @ ''.jpg'')"
  by (simp add: same_sources_def path_exists_def endswith_ext)

lemma converted_same_sources:
  "same_sources w w' \<Longrightarrow> converted classes w xml = converted classes w' xml"
  using convert_reads_sources [of w w' classes xml] jpg_same_sources [of w w' "split_head ''.xml'' xml"]
  by (simp add: converted_def)

section \<open>Properties of the splitter\<close>








subsection \<open>Files that stop the run\<close>















subsection \<open>The two manifests\<close>


















section \<open>Properties of the command line\<close>

lemma out_of_range:
  "(\<not> range_eq float_0 float_1 v) = (v = NaN \<or> float_lt v float_0 \<or> float_lt float_1 v)"
  by (cases v) (auto simp: range_eq_def float_0_def float_1_def signed_def)

lemma in_range: "float_lt float_0 v \<Longrightarrow> float_lt v float_1 \<Longrightarrow> range_eq float_0 float_1 v"
  by (cases v) (auto simp: range_eq_def float_0_def float_1_def signed_def split: if_splits)

lemma class_map_empty: "class_map [] = [[] \<mapsto> 0]"
  by (simp add: class_map_def)

text \<open>
  Claim C4, as stated, fails: an empty class list is not rejected. The empty string is
  read as the one class with the empty name and the id 0, and the program runs: on an
  empty directory it ends normally and has created the two manifest files.
\<close>

theorem empty_class_list_is_accepted:
  "parse_args (args_of (Some []) None)
     = Inr \<lparr>cfg_classes = [[] \<mapsto> 0], cfg_source_dir = ''source'',
            cfg_destination_dir = ''destination'', cfg_dest_subdir = ''data'',
            cfg_dest_file_name_header = ''sample'', cfg_percentage_test = float_0_1\<rparr>
   \<and> fst (program (fixed_env [] float_0) ''/w'' (args_of (Some []) None) empty_world) = Inr ()
   \<and> files (snd (program (fixed_env [] float_0) ''/w'' (args_of (Some []) None) empty_world))
        ''/w/destination/data-train.txt'' = Some (Raw [])"
proof -
  have p: "parse_args (args_of (Some []) None)
     = Inr \<lparr>cfg_classes = [[] \<mapsto> 0], cfg_source_dir = ''source'',
            cfg_destination_dir = ''destination'', cfg_dest_subdir = ''data'',
            cfg_dest_file_name_header = ''sample'', cfg_percentage_test = float_0_1\<rparr>"
    by (simp add: parse_args_def args_of_def class_map_empty)
  have t: "new_training_data ''/w/destination/data'' ''/w/destination'' ''data'' [[] \<mapsto> 0] float_0_1
           = Inr \<lparr>td_input_dir = ''/w/destination/data'', td_output_dir = ''/w/destination'',
                  td_file_header = ''data'', td_percentage_test = float_0_1,
                  td_classes = [[] \<mapsto> 0], detected_pairs_count = 0, processed_count = 0\<rparr>"
    by (simp add: new_training_data_def float_0_def float_1_def float_0_1_def signed_def)
  have j: "path_join ''/w'' ''source'' = ''/w/source''"
    "path_join ''destination'' ''data'' = ''destination/data''"
    "path_join ''/w'' ''destination/data'' = ''/w/destination/data''"
    "path_join ''/w'' ''destination'' = ''/w/destination''"
    by (simp_all add: path_join_def endswith_def)
  have m: "fst (main (fixed_env [] float_0) ''/w''
             \<lparr>cfg_classes = [[] \<mapsto> 0], cfg_source_dir = ''source'',
              cfg_destination_dir = ''destination'', cfg_dest_subdir = ''data'',
              cfg_dest_file_name_header = ''sample'', cfg_percentage_test = float_0_1\<rparr> empty_world)
           = Inr ()"
    "files (snd (main (fixed_env [] float_0) ''/w''
             \<lparr>cfg_classes = [[] \<mapsto> 0], cfg_source_dir = ''source'',
              cfg_destination_dir = ''destination'', cfg_dest_subdir = ''data'',
              cfg_dest_file_name_header = ''sample'', cfg_percentage_test = float_0_1\<rparr> empty_world))
               ''/w/destination/data-train.txt'' = Some (Raw [])"
    by (simp_all add: main_def Let_def j sanitize_def new_image_data_def fixed_env_def t split_def
        train_path_def test_path_def path_join_def endswith_def print_def empty_world_def)
  have "program (fixed_env [] float_0) ''/w'' (args_of (Some []) None) empty_world
        = main (fixed_env [] float_0) ''/w''
             \<lparr>cfg_classes = [[] \<mapsto> 0], cfg_source_dir = ''source'',
              cfg_destination_dir = ''destination'', cfg_dest_subdir = ''data'',
              cfg_dest_file_name_header = ''sample'', cfg_percentage_test = float_0_1\<rparr> empty_world"
    by (simp add: program_def p)
  with p m show ?thesis by simp
qed

text \<open>
  Claim C4, amended. When the class list is missing, or a test fraction is given that is
  a NaN, below 0.0 or above 1.0, the command line is rejected: the program exits while it
  reads its arguments and the world is as it was, so no file has been copied or converted.
  A command line with a class list, and with no test fraction or one strictly between 0.0
  and 1.0, is accepted, whatever the class list is: the class map is made from it, and the
  test fraction is the given one, or 0.1.
\<close>

theorem command_line_is_checked_first:
  "(arg_classes a = None
    \<or> (\<exists>v. arg_percent a = Some v \<and> (v = NaN \<or> float_lt v float_0 \<or> float_lt float_1 v))
    \<longrightarrow> parse_args a = Inl SystemExit \<and> program ev current_dir a w = (Inl SystemExit, w))
   \<and> (arg_classes a = Some cs
       \<and> (arg_percent a = None
           \<or> (\<exists>v. arg_percent a = Some v \<and> float_lt float_0 v \<and> float_lt v float_1))
      \<longrightarrow> (\<exists>cfg. parse_args a = Inr cfg \<and> cfg_classes cfg = class_map cs
                 \<and> cfg_percentage_test cfg
                     = (case arg_percent a of None \<Rightarrow> float_0_1 | Some v \<Rightarrow> v)
                 \<and> program ev current_dir a w = main ev current_dir cfg w))"
proof -
  have a: "parse_args a = Inl SystemExit \<and> program ev current_dir a w = (Inl SystemExit, w)"
    if "arg_classes a = None
        \<or> (\<exists>v. arg_percent a = Some v \<and> (v = NaN \<or> float_lt v float_0 \<or> float_lt float_1 v))"
  proof -
    from that have "parse_args a = Inl SystemExit"
      by (auto simp: parse_args_def out_of_range split: option.splits)
    then show ?thesis by (simp add: program_def)
  qed
  have b: "\<exists>cfg. parse_args a = Inr cfg \<and> cfg_classes cfg = class_map cs
                 \<and> cfg_percentage_test cfg
                     = (case arg_percent a of None \<Rightarrow> float_0_1 | Some v \<Rightarrow> v)
                 \<and> program ev current_dir a w = main ev current_dir cfg w"
    if "arg_classes a = Some cs
       \<and> (arg_percent a = None
           \<or> (\<exists>v. arg_percent a = Some v \<and> float_lt float_0 v \<and> float_lt v float_1))"
    using that by (auto simp: parse_args_def program_def in_range)
  from a b show ?thesis by blast
qed

theorem command_line_is_checked_first_witness:
  "program (fixed_env [] float_0) ''/w'' (args_of None None) empty_world
     = (Inl SystemExit, empty_world)
   \<and> float_lt float_1 (Finite False (3 / 2))
   \<and> program (fixed_env [] float_0) ''/w'' (args_of (Some ''cat,dog'') (Some (Finite False (3 / 2))))
       empty_world = (Inl SystemExit, empty_world)
   \<and> float_lt (Finite True (1 / 2)) float_0
   \<and> program (fixed_env [] float_0) ''/w'' (args_of (Some ''cat,dog'') (Some (Finite True (1 / 2))))
       empty_world = (Inl SystemExit, empty_world)
   \<and> float_lt float_0 (Finite False (1 / 2)) \<and> float_lt (Finite False (1 / 2)) float_1
   \<and> (\<exists>cfg. parse_args (args_of (Some ''cat,dog'') (Some (Finite False (1 / 2)))) = Inr cfg
            \<and> cfg_classes cfg = cat_dog \<and> cfg_percentage_test cfg = Finite False (1 / 2))"
proof -
  have f: "float_lt float_1 (Finite False (3 / 2))" "float_lt (Finite True (1 / 2)) float_0"
    "float_lt float_0 (Finite False (1 / 2))" "float_lt (Finite False (1 / 2)) float_1"
    by (simp_all add: float_0_def float_1_def signed_def)
  have c: "class_map ''cat,dog'' = cat_dog"
    by (simp add: class_map_def cat_dog_def isspace_def upt_rec)
  have s: "arg_classes (args_of cs p) = cs" "arg_percent (args_of cs p) = p" for cs p
    by (simp_all add: args_of_def)
  from command_line_is_checked_first [of "args_of None None" "fixed_env [] float_0" "''/w''" empty_world]
  have r1: "program (fixed_env [] float_0) ''/w'' (args_of None None) empty_world
     = (Inl SystemExit, empty_world)"
    by (simp add: s)
  from command_line_is_checked_first [of "args_of (Some ''cat,dog'') (Some (Finite False (3 / 2)))"
      "fixed_env [] float_0" "''/w''" empty_world] f(1)
  have r2: "program (fixed_env [] float_0) ''/w''
      (args_of (Some ''cat,dog'') (Some (Finite False (3 / 2)))) empty_world
     = (Inl SystemExit, empty_world)"
    by (simp add: s)
  from command_line_is_checked_first [of "args_of (Some ''cat,dog'') (Some (Finite True (1 / 2)))"
      "fixed_env [] float_0" "''/w''" empty_world] f(2)
  have r3: "program (fixed_env [] float_0) ''/w''
      (args_of (Some ''cat,dog'') (Some (Finite True (1 / 2)))) empty_world
     = (Inl SystemExit, empty_world)"
    by (simp add: s)
  from command_line_is_checked_first
      [where a = "args_of (Some ''cat,dog'') (Some (Finite False (1 / 2)))" and cs = "''cat,dog''"
        and ev = "fixed_env [] float_0" and current_dir = "''/w''" and w = empty_world]
    f(3,4)
  have r4: "\<exists>cfg. parse_args (args_of (Some ''cat,dog'') (Some (Finite False (1 / 2)))) = Inr cfg
            \<and> cfg_classes cfg = cat_dog \<and> cfg_percentage_test cfg = Finite False (1 / 2)"
    by (auto simp: s c)
  from r1 f r2 r3 r4 show ?thesis by blast
qed

end
